theory Spec2Isabelle
  imports Main "HOL-Library.Sublist"
begin

section \<open>JavaScript values, errors and promises\<close>

text \<open>
  Telegraphy (\<^verbatim>\<open>src/index.ts\<close>, \<^verbatim>\<open>src/src/http.ts\<close>) moves plain data between a client
  proxy and a server route. The values it handles are modelled by \<open>jsval\<close>: \<open>undefined\<close>,
  \<open>null\<close>, booleans, numbers, strings, arrays and plain objects. A number is an integer here
  (fractions, \<open>NaN\<close>, the infinities and the negative zero are outside the model); a string is a
  list of 8-bit code units; an object is the list of its own properties in enumeration order.

  Whatever the program throws is a value of \<open>error\<close>: \<open>Error m\<close> is \<^verbatim>\<open>new Error(m)\<close>,
  \<open>TypeError\<close> and \<open>SyntaxError\<close> are raised by the JavaScript runtime, \<open>SchemaError\<close> by the
  validation library. The messages of \<open>Error\<close> are the program's own, character for character;
  those of the other errors are indicative. \<open>Unmodelled\<close> is not an error of the program: it
  marks the few points where the program's behaviour leaves the model (the text says where), so
  that no theorem mistakes them for a rejection or for a result.
\<close>

datatype error =
    Error string
  | TypeError string
  | SyntaxError string
  | SchemaError string
  | Unmodelled string

datatype jsval =
    JUndefined
  | JNull
  | JBool bool
  | JNum int
  | JStr string
  | JArr "jsval list"
  | JObj "(string \<times> jsval) list"

text \<open>
  \<^verbatim>\<open>fetch(endpoint, {headers, method: "POST", body})\<close> receives a \<open>request\<close>.
\<close>

record request =
  headers :: "(string \<times> string) list"
  http_method :: string
  body :: jsval

text \<open>
  The program has no state of its own, but everything it is given has: the cable, the
  implementation, \<^verbatim>\<open>fetch\<close>, the \<^verbatim>\<open>auth\<close> object. An asynchronous computation is therefore a
  \<open>task\<close>: from the world \<open>'w\<close> it starts in, it yields the calls it made to its collaborators
  (in order), how its promise settled (\<open>Inl\<close> rejected, \<open>Inr\<close> resolved) and the world it leaves.
  The calls are ghost state: the program writes no log, the model records each call where the
  source makes it.
\<close>

datatype 'c event =
    CableCall string string jsval
  | FactoryCall 'c
  | ImplCall string jsval
  | RouteCall string 'c string jsval
  | FetchCall string request

type_synonym ('c, 'w, 'a) task = "'w \<Rightarrow> 'c event list \<times> (error + 'a) \<times> 'w"

definition resolve :: "'a \<Rightarrow> ('c, 'w, 'a) task" where
  "resolve a w = ([], Inr a, w)"

definition reject :: "error \<Rightarrow> ('c, 'w, 'a) task" where
  "reject e w = ([], Inl e, w)"

text \<open>A synchronous step inside an \<^verbatim>\<open>async\<close> function: it returns or throws, and touches nothing.\<close>

definition settle :: "error + 'a \<Rightarrow> ('c, 'w, 'a) task" where
  "settle r w = ([], r, w)"

text \<open>\<^verbatim>\<open>const a = await m; ...\<close>: a rejection of \<open>m\<close> ends the function, a value goes on.\<close>

definition await :: "('c, 'w, 'a) task \<Rightarrow> ('a \<Rightarrow> ('c, 'w, 'b) task) \<Rightarrow> ('c, 'w, 'b) task" where
  "await m k w =
     (case m w of
        (t, Inl e, w') \<Rightarrow> (t, Inl e, w')
      | (t, Inr a, w') \<Rightarrow> (case k a w' of (t', r, w'') \<Rightarrow> (t @ t', r, w'')))"

text \<open>A call to a collaborator: the call is recorded, then the collaborator runs.\<close>

definition emit :: "'c event \<Rightarrow> ('c, 'w, 'a) task \<Rightarrow> ('c, 'w, 'a) task" where
  "emit ev m w = (case m w of (t, r, w') \<Rightarrow> (ev # t, r, w'))"

definition trace :: "'c event list \<times> (error + 'a) \<times> 'w \<Rightarrow> 'c event list" where
  "trace x = fst x"

definition outcome :: "'c event list \<times> (error + 'a) \<times> 'w \<Rightarrow> error + 'a" where
  "outcome x = fst (snd x)"

definition world :: "'c event list \<times> (error + 'a) \<times> 'w \<Rightarrow> 'w" where
  "world x = snd (snd x)"



fun route_calls :: "'c event list \<Rightarrow> (string \<times> 'c \<times> string \<times> jsval) list" where
  "route_calls [] = []"
| "route_calls (RouteCall f c m i # t) = (f, c, m, i) # route_calls t"
| "route_calls (ev # t) = route_calls t"

fun fetch_calls :: "'c event list \<Rightarrow> (string \<times> request) list" where
  "fetch_calls [] = []"
| "fetch_calls (FetchCall u r # t) = (u, r) # fetch_calls t"
| "fetch_calls (ev # t) = fetch_calls t"

section \<open>Objects used as tables\<close>

text \<open>
  \<^verbatim>\<open>feature.schema\<close> and the router's \<^verbatim>\<open>routes\<close> are objects read with \<^verbatim>\<open>table[key]\<close>
  and tested with \<^verbatim>\<open>!\<close>. Every test and every example of the repository writes them as object
  literals, so besides their own properties (a map) they inherit the members of
  \<^verbatim>\<open>Object.prototype\<close>: a read finds an own property, else an inherited member (an object or
  a function, truthy, and neither a Callable nor a Route), else \<^verbatim>\<open>undefined\<close>.
\<close>

definition Object_prototype :: "string list" where
  "Object_prototype =
     [''constructor'', ''__defineGetter__'', ''__defineSetter__'', ''hasOwnProperty'',
      ''__lookupGetter__'', ''__lookupSetter__'', ''isPrototypeOf'', ''propertyIsEnumerable'',
      ''toString'', ''valueOf'', ''__proto__'', ''toLocaleString'']"

datatype 'a member = Own 'a | Inherited | Missing

definition get_prop :: "(string \<rightharpoonup> 'a) \<Rightarrow> string \<Rightarrow> 'a member" where
  "get_prop table key =
     (case table key of
        Some v \<Rightarrow> Own v
      | None \<Rightarrow> if key \<in> set Object_prototype then Inherited else Missing)"

text \<open>A property of a data object (a payload): its value, or \<^verbatim>\<open>undefined\<close>.\<close>

definition field :: "(string \<times> jsval) list \<Rightarrow> string \<Rightarrow> jsval" where
  "field kvs key = (case map_of kvs key of Some v \<Rightarrow> v | None \<Rightarrow> JUndefined)"

section \<open>The validation library\<close>

text \<open>
  Modelled from the spec: the schema library (\<^verbatim>\<open>sury\<close>, imported as \<^verbatim>\<open>S\<close>) is not part of
  the repository. A schema is "an opaque capability object supporting validate(value) \<rightarrow> value |
  fails": a function from the value to the validated value or the validation error.
\<close>

type_synonym 'a Schema = "jsval \<Rightarrow> error + 'a"

text \<open>
  \<^verbatim>\<open>S.parseOrThrow(value, schema)\<close> applies the schema. Handed \<^verbatim>\<open>undefined\<close> in place of a
  schema (\<open>None\<close>) it has nothing to apply, and throws; which error it throws then is stated
  neither by the spec nor by the repository, and is the library's own business. The library
  \<open>S\<close> is therefore a parameter of everything that validates, and \<open>no_schema S\<close> is that error:
  nothing is assumed about its class or its message.
\<close>

record Sury =
  no_schema :: error

definition parseOrThrow :: "Sury \<Rightarrow> jsval \<Rightarrow> 'a Schema option \<Rightarrow> error + 'a" where
  "parseOrThrow S v s =
     (case s of
        None \<Rightarrow> Inl (no_schema S)
      | Some validate \<Rightarrow> validate v)"

text \<open>
  Modelled from the spec: the schemas the repository itself builds, \<^verbatim>\<open>S.string\<close> and
  \<^verbatim>\<open>S.unknown\<close> ("input: opaque"), and, for the examples, \<^verbatim>\<open>S.number\<close> and an object schema
  \<^verbatim>\<open>S.schema({...})\<close>, which validates each declared field (a missing one reads as
  \<^verbatim>\<open>undefined\<close>) and keeps the declared fields only. \<open>S_string\<close> yields the string itself, as
  the envelope needs it; \<open>S_text\<close> is \<^verbatim>\<open>S.string\<close> for a field, and yields the value.
\<close>

definition S_string :: "string Schema" where
  "S_string v = (case v of JStr s \<Rightarrow> Inr s | _ \<Rightarrow> Inl (SchemaError ''Expected string''))"

definition S_unknown :: "jsval Schema" where
  "S_unknown v = Inr v"

definition S_number :: "jsval Schema" where
  "S_number v = (case v of JNum n \<Rightarrow> Inr v | _ \<Rightarrow> Inl (SchemaError ''Expected number''))"

definition S_text :: "jsval Schema" where
  "S_text v = (case v of JStr s \<Rightarrow> Inr v | _ \<Rightarrow> Inl (SchemaError ''Expected string''))"

fun parse_fields :: "(string \<times> jsval Schema) list \<Rightarrow> (string \<times> jsval) list \<Rightarrow>
    error + (string \<times> jsval) list" where
  "parse_fields [] kvs = Inr []"
| "parse_fields ((k, s) # fs) kvs =
     (case s (field kvs k) of
        Inl e \<Rightarrow> Inl e
      | Inr x \<Rightarrow> (case parse_fields fs kvs of Inl e \<Rightarrow> Inl e | Inr xs \<Rightarrow> Inr ((k, x) # xs)))"

definition S_schema :: "(string \<times> jsval Schema) list \<Rightarrow> jsval Schema" where
  "S_schema fs v =
     (case v of
        JObj kvs \<Rightarrow> (case parse_fields fs kvs of Inl e \<Rightarrow> Inl e | Inr xs \<Rightarrow> Inr (JObj xs))
      | _ \<Rightarrow> Inl (SchemaError ''Expected object''))"

text \<open>
  \<^verbatim>\<open>cableSchema = S.schema({feature: S.string, method: S.string, input: S.unknown})\<close>, with
  its inferred type \<^verbatim>\<open>CableInput\<close>.
\<close>

record CableInput =
  ci_feature :: string
  ci_method :: string
  ci_input :: jsval

definition cableSchema :: "CableInput Schema" where
  "cableSchema payload =
     (case payload of
        JObj kvs \<Rightarrow>
          (case S_string (field kvs ''feature'') of
             Inl e \<Rightarrow> Inl e
           | Inr f \<Rightarrow>
               (case S_string (field kvs ''method'') of
                  Inl e \<Rightarrow> Inl e
                | Inr m \<Rightarrow>
                    (case S_unknown (field kvs ''input'') of
                       Inl e \<Rightarrow> Inl e
                     | Inr i \<Rightarrow> Inr \<lparr>ci_feature = f, ci_method = m, ci_input = i\<rparr>)))
      | _ \<Rightarrow> Inl (SchemaError ''Expected object''))"

section \<open>JSON\<close>

text \<open>
  Modelled from the spec: the serialization ("canonical JSON text", which "callers must
  \<^verbatim>\<open>JSON.parse\<close>") is the \<^verbatim>\<open>JSON.stringify\<close> and \<^verbatim>\<open>JSON.parse\<close> of the JavaScript runtime,
  which is not part of the repository. The model follows ECMA-262 on the values of \<open>jsval\<close>.

  \<^verbatim>\<open>JSON.stringify(v)\<close> is \<^verbatim>\<open>undefined\<close> for \<^verbatim>\<open>undefined\<close> and a string otherwise. Inside
  an array \<^verbatim>\<open>undefined\<close> is written \<^verbatim>\<open>null\<close>; a property whose value is \<^verbatim>\<open>undefined\<close> is
  left out. A string is quoted with the escapes of \<^verbatim>\<open>QuoteJSONString\<close>.
\<close>

definition hex_digit :: "nat \<Rightarrow> char" where
  "hex_digit n = ''0123456789abcdef'' ! n"

definition QuoteJSONChar :: "char \<Rightarrow> string" where
  "QuoteJSONChar c =
     (if c = CHR 0x08 then [CHR 0x5C, CHR ''b'']
      else if c = CHR 0x09 then [CHR 0x5C, CHR ''t'']
      else if c = CHR 0x0A then [CHR 0x5C, CHR ''n'']
      else if c = CHR 0x0C then [CHR 0x5C, CHR ''f'']
      else if c = CHR 0x0D then [CHR 0x5C, CHR ''r'']
      else if c = CHR 0x22 then [CHR 0x5C, CHR 0x22]
      else if c = CHR 0x5C then [CHR 0x5C, CHR 0x5C]
      else if (of_char c :: nat) < 0x20 then
        [CHR 0x5C, CHR ''u'', CHR ''0'', CHR ''0'',
         hex_digit (of_char c div 16), hex_digit (of_char c mod 16)]
      else [c])"

definition QuoteJSONString :: "string \<Rightarrow> string" where
  "QuoteJSONString s = [CHR 0x22] @ concat (map QuoteJSONChar s) @ [CHR 0x22]"

definition dec_digit :: "nat \<Rightarrow> char" where
  "dec_digit n = ''0123456789'' ! n"

fun digits :: "nat \<Rightarrow> string" where
  "digits n = (if n < 10 then [dec_digit n] else digits (n div 10) @ [dec_digit (n mod 10)])"

declare digits.simps [simp del]

definition NumberToString :: "int \<Rightarrow> string" where
  "NumberToString i = (if i < 0 then CHR ''-'' # digits (nat (- i)) else digits (nat i))"

fun join :: "string \<Rightarrow> string list \<Rightarrow> string" where
  "join sep [] = []"
| "join sep [x] = x"
| "join sep (x # y # ys) = x @ sep @ join sep (y # ys)"

fun SerializeJSONProperty :: "jsval \<Rightarrow> string" where
  "SerializeJSONProperty JUndefined = ''null''"
| "SerializeJSONProperty JNull = ''null''"
| "SerializeJSONProperty (JBool b) = (if b then ''true'' else ''false'')"
| "SerializeJSONProperty (JNum i) = NumberToString i"
| "SerializeJSONProperty (JStr s) = QuoteJSONString s"
| "SerializeJSONProperty (JArr xs) = ''['' @ join '','' (map SerializeJSONProperty xs) @ '']''"
| "SerializeJSONProperty (JObj kvs) =
     ''{'' @ join '','' (map (\<lambda>(k, v). QuoteJSONString k @ '':'' @ SerializeJSONProperty v)
                          (filter (\<lambda>(k, v). v \<noteq> JUndefined) kvs)) @ ''}''"

definition JSON_stringify :: "jsval \<Rightarrow> jsval" where
  "JSON_stringify v = (if v = JUndefined then JUndefined else JStr (SerializeJSONProperty v))"

text \<open>
  \<^verbatim>\<open>JSON.parse(x)\<close> turns \<open>x\<close> into a string first (\<^verbatim>\<open>ToString\<close>: \<^verbatim>\<open>undefined\<close> becomes the
  text \<^verbatim>\<open>undefined\<close>) and parses it by recursive descent. The parser recurses on fuel;
  \<open>JSON_parse\<close> gives it enough for every text (lemma \<open>JSON_parse_fuel\<close>). A text that is JSON but whose value is
  not in \<open>jsval\<close> (a number with a fraction or an exponent, an escape above \<^verbatim>\<open>\u00ff\<close>) is
  \<open>Unmodelled\<close>. A repeated key keeps its first place and its last value.
\<close>

datatype 'a parsed = Parsed 'a string | Failed error

definition is_ws :: "char \<Rightarrow> bool" where
  "is_ws c = (c = CHR '' '' \<or> c = CHR 0x09 \<or> c = CHR 0x0A \<or> c = CHR 0x0D)"

definition skip_ws :: "string \<Rightarrow> string" where
  "skip_ws s = dropWhile is_ws s"

definition is_digit :: "char \<Rightarrow> bool" where
  "is_digit c = (48 \<le> (of_char c :: nat) \<and> (of_char c :: nat) \<le> 57)"

definition digit_val :: "char \<Rightarrow> nat" where
  "digit_val c = of_char c - 48"

definition hex_val :: "char \<Rightarrow> nat option" where
  "hex_val c =
     (let n = (of_char c :: nat) in
      if 48 \<le> n \<and> n \<le> 57 then Some (n - 48)
      else if 97 \<le> n \<and> n \<le> 102 then Some (n - 87)
      else if 65 \<le> n \<and> n \<le> 70 then Some (n - 55)
      else None)"

definition unescape :: "char \<Rightarrow> char option" where
  "unescape c =
     (if c = CHR 0x22 then Some (CHR 0x22)
      else if c = CHR 0x5C then Some (CHR 0x5C)
      else if c = CHR ''/'' then Some (CHR ''/'')
      else if c = CHR ''b'' then Some (CHR 0x08)
      else if c = CHR ''f'' then Some (CHR 0x0C)
      else if c = CHR ''n'' then Some (CHR 0x0A)
      else if c = CHR ''r'' then Some (CHR 0x0D)
      else if c = CHR ''t'' then Some (CHR 0x09)
      else None)"

datatype scan = Plain | Escape | Hex nat nat

fun parse_chars :: "scan \<Rightarrow> string \<Rightarrow> string \<Rightarrow> string parsed" where
  "parse_chars st acc [] = Failed (SyntaxError ''Unterminated string in JSON'')"
| "parse_chars Plain acc (c # cs) =
     (if c = CHR 0x22 then Parsed acc cs
      else if c = CHR 0x5C then parse_chars Escape acc cs
      else if (of_char c :: nat) < 0x20 then
        Failed (SyntaxError ''Bad control character in string literal in JSON'')
      else parse_chars Plain (acc @ [c]) cs)"
| "parse_chars Escape acc (c # cs) =
     (if c = CHR ''u'' then parse_chars (Hex 4 0) acc cs
      else (case unescape c of
              Some d \<Rightarrow> parse_chars Plain (acc @ [d]) cs
            | None \<Rightarrow> Failed (SyntaxError ''Bad escaped character in JSON'')))"
| "parse_chars (Hex k n) acc (c # cs) =
     (case hex_val c of
        None \<Rightarrow> Failed (SyntaxError ''Bad Unicode escape in JSON'')
      | Some d \<Rightarrow>
          if k \<le> 1 then
            (if n * 16 + d < 256 then parse_chars Plain (acc @ [char_of (n * 16 + d)]) cs
             else Failed (Unmodelled ''code unit above 0xFF''))
          else parse_chars (Hex (k - 1) (n * 16 + d)) acc cs)"

fun parse_digits :: "nat \<Rightarrow> string \<Rightarrow> nat \<times> string" where
  "parse_digits n [] = (n, [])"
| "parse_digits n (c # cs) =
     (if is_digit c then parse_digits (10 * n + digit_val c) cs else (n, c # cs))"

definition parse_int :: "string \<Rightarrow> nat parsed" where
  "parse_int s =
     (case s of
        [] \<Rightarrow> Failed (SyntaxError ''Unexpected end of JSON input'')
      | c # cs \<Rightarrow>
          if c = CHR ''0'' then Parsed 0 cs
          else if is_digit c then (case parse_digits (digit_val c) cs of (n, rest) \<Rightarrow> Parsed n rest)
          else Failed (SyntaxError ''No number after minus sign in JSON''))"

definition integral :: "int \<Rightarrow> string \<Rightarrow> jsval parsed" where
  "integral i rest =
     (case rest of
        [] \<Rightarrow> Parsed (JNum i) rest
      | c # cs \<Rightarrow>
          if c = CHR ''.'' \<or> c = CHR ''e'' \<or> c = CHR ''E'' then
            Failed (Unmodelled ''number with a fraction or an exponent'')
          else Parsed (JNum i) rest)"

definition parse_number :: "string \<Rightarrow> jsval parsed" where
  "parse_number s =
     (case s of
        [] \<Rightarrow> Failed (SyntaxError ''Unexpected end of JSON input'')
      | c # cs \<Rightarrow>
          if c = CHR ''-'' then
            (case parse_int cs of
               Failed e \<Rightarrow> Failed e
             | Parsed n rest \<Rightarrow> integral (- int n) rest)
          else
            (case parse_int s of
               Failed e \<Rightarrow> Failed e
             | Parsed n rest \<Rightarrow> integral (int n) rest))"

definition parse_literal :: "string \<Rightarrow> jsval \<Rightarrow> string \<Rightarrow> jsval parsed" where
  "parse_literal kw v s =
     (if take (length kw) s = kw then Parsed v (drop (length kw) s)
      else Failed (SyntaxError ''Unexpected token in JSON''))"

fun set_property :: "(string \<times> jsval) list \<Rightarrow> string \<Rightarrow> jsval \<Rightarrow> (string \<times> jsval) list" where
  "set_property [] k v = [(k, v)]"
| "set_property ((k', v') # kvs) k v =
     (if k' = k then (k, v) # kvs else (k', v') # set_property kvs k v)"

fun parse_value :: "nat \<Rightarrow> string \<Rightarrow> jsval parsed"
and parse_elements :: "nat \<Rightarrow> jsval list \<Rightarrow> string \<Rightarrow> jsval parsed"
and parse_members :: "nat \<Rightarrow> (string \<times> jsval) list \<Rightarrow> string \<Rightarrow> jsval parsed" where
  "parse_value 0 s = Failed (Unmodelled ''nesting too deep'')"
| "parse_value (Suc n) s =
     (case skip_ws s of
        [] \<Rightarrow> Failed (SyntaxError ''Unexpected end of JSON input'')
      | c # cs \<Rightarrow>
          if c = CHR ''n'' then parse_literal ''null'' JNull (c # cs)
          else if c = CHR ''t'' then parse_literal ''true'' (JBool True) (c # cs)
          else if c = CHR ''f'' then parse_literal ''false'' (JBool False) (c # cs)
          else if c = CHR 0x22 then
            (case parse_chars Plain [] cs of
               Failed e \<Rightarrow> Failed e
             | Parsed str rest \<Rightarrow> Parsed (JStr str) rest)
          else if c = CHR ''['' then
            (case skip_ws cs of
               [] \<Rightarrow> Failed (SyntaxError ''Unexpected end of JSON input'')
             | d # rest \<Rightarrow> if d = CHR '']'' then Parsed (JArr []) rest else parse_elements n [] cs)
          else if c = CHR ''{'' then
            (case skip_ws cs of
               [] \<Rightarrow> Failed (SyntaxError ''Unexpected end of JSON input'')
             | d # rest \<Rightarrow> if d = CHR ''}'' then Parsed (JObj []) rest else parse_members n [] cs)
          else if c = CHR ''-'' \<or> is_digit c then parse_number (c # cs)
          else Failed (SyntaxError ''Unexpected token in JSON''))"
| "parse_elements 0 acc s = Failed (Unmodelled ''nesting too deep'')"
| "parse_elements (Suc n) acc s =
     (case parse_value n s of
        Failed e \<Rightarrow> Failed e
      | Parsed v rest \<Rightarrow>
          (case skip_ws rest of
             [] \<Rightarrow> Failed (SyntaxError ''Unexpected end of JSON input'')
           | c # rest' \<Rightarrow>
               if c = CHR '','' then parse_elements n (acc @ [v]) rest'
               else if c = CHR '']'' then Parsed (JArr (acc @ [v])) rest'
               else Failed (SyntaxError ''Unexpected token in JSON'')))"
| "parse_members 0 acc s = Failed (Unmodelled ''nesting too deep'')"
| "parse_members (Suc n) acc s =
     (case skip_ws s of
        [] \<Rightarrow> Failed (SyntaxError ''Unexpected end of JSON input'')
      | c # cs \<Rightarrow>
          if c \<noteq> CHR 0x22 then Failed (SyntaxError ''Expected double-quoted property name in JSON'')
          else
            (case parse_chars Plain [] cs of
               Failed e \<Rightarrow> Failed e
             | Parsed k rest \<Rightarrow>
                 (case skip_ws rest of
                    [] \<Rightarrow> Failed (SyntaxError ''Unexpected end of JSON input'')
                  | c2 # rest2 \<Rightarrow>
                      if c2 \<noteq> CHR '':'' then Failed (SyntaxError ''Expected colon after property name in JSON'')
                      else
                        (case parse_value n rest2 of
                           Failed e \<Rightarrow> Failed e
                         | Parsed v rest3 \<Rightarrow>
                             (case skip_ws rest3 of
                                [] \<Rightarrow> Failed (SyntaxError ''Unexpected end of JSON input'')
                              | c3 # rest4 \<Rightarrow>
                                  if c3 = CHR '','' then parse_members n (set_property acc k v) rest4
                                  else if c3 = CHR ''}'' then Parsed (JObj (set_property acc k v)) rest4
                                  else Failed (SyntaxError ''Unexpected token in JSON''))))))"

fun ToString :: "jsval \<Rightarrow> string" where
  "ToString JUndefined = ''undefined''"
| "ToString JNull = ''null''"
| "ToString (JBool b) = (if b then ''true'' else ''false'')"
| "ToString (JNum i) = NumberToString i"
| "ToString (JStr s) = s"
| "ToString (JArr xs) =
     join '','' (map (\<lambda>x. if x = JUndefined \<or> x = JNull then [] else ToString x) xs)"
| "ToString (JObj kvs) = ''[object Object]''"

definition JSON_parse :: "jsval \<Rightarrow> error + jsval" where
  "JSON_parse x =
     (let text = ToString x in
      case parse_value (2 * length text + 2) text of
        Failed e \<Rightarrow> Inl e
      | Parsed v rest \<Rightarrow>
          if skip_ws rest = [] then Inr v
          else Inl (SyntaxError ''Unexpected non-whitespace character after JSON''))"

text \<open>
  The values JSON can carry: no \<^verbatim>\<open>undefined\<close> anywhere, and no object with a repeated key.
\<close>

fun json_value :: "jsval \<Rightarrow> bool" where
  "json_value JUndefined = False"
| "json_value JNull = True"
| "json_value (JBool b) = True"
| "json_value (JNum i) = True"
| "json_value (JStr s) = True"
| "json_value (JArr xs) = list_all json_value xs"
| "json_value (JObj kvs) = (distinct (map fst kvs) \<and> list_all (\<lambda>kv. json_value (snd kv)) kvs)"

text \<open>
  Inside a text, a value is followed by a comma, by a closing bracket or brace, or by nothing.
\<close>

definition closes :: "string \<Rightarrow> bool" where
  "closes rest = (rest = [] \<or> hd rest = CHR '','' \<or> hd rest = CHR '']'' \<or> hd rest = CHR ''}'')"

section \<open>The dispatch core\<close>

subsection \<open>Features and callables\<close>

text \<open>
  \<^verbatim>\<open>feature(name, schema)\<close> returns \<^verbatim>\<open>{name, schema}\<close>, and
  \<^verbatim>\<open>transform(input).to(output)\<close> returns \<^verbatim>\<open>{input, output}\<close>; neither looks at its arguments. (The fields are
  \<open>input_schema\<close> and \<open>output_schema\<close> here: \<open>input\<close> and \<open>output\<close> are reserved words.)
\<close>

record 't AnyFeature =
  name :: string
  schema :: 't

record ('i, 'o) Callable =
  input_schema :: 'i
  output_schema :: 'o

definition feature :: "string \<Rightarrow> 't \<Rightarrow> 't AnyFeature" where
  "feature n s = \<lparr>name = n, schema = s\<rparr>"

definition transform :: "'i \<Rightarrow> 'o \<Rightarrow> ('i, 'o) Callable" where
  "transform i o' = \<lparr>input_schema = i, output_schema = o'\<rparr>"

type_synonym Schemas = "string \<rightharpoonup> (jsval Schema, jsval Schema) Callable"

type_synonym ('c, 'w) Cable = "string \<Rightarrow> string \<Rightarrow> jsval \<Rightarrow> ('c, 'w, jsval) task"

text \<open>
  \<^verbatim>\<open>const { input, output } = callable\<close>, for a callable that is not \<^verbatim>\<open>undefined\<close>: an
  inherited member of \<^verbatim>\<open>Object.prototype\<close> has neither property, and both names are bound
  to \<^verbatim>\<open>undefined\<close>.
\<close>

definition input_of :: "(jsval Schema, jsval Schema) Callable member \<Rightarrow> jsval Schema option" where
  "input_of p = (case p of Own c \<Rightarrow> Some (input_schema c) | _ \<Rightarrow> None)"

definition output_of :: "(jsval Schema, jsval Schema) Callable member \<Rightarrow> jsval Schema option" where
  "output_of p = (case p of Own c \<Rightarrow> Some (output_schema c) | _ \<Rightarrow> None)"

subsection \<open>The client: cables and the remote proxy\<close>

text \<open>
  \<^verbatim>\<open>makeCable(endpoint, auth)\<close> of \<^verbatim>\<open>src/index.ts\<close>. The global \<^verbatim>\<open>fetch\<close> is a parameter;
  \<^verbatim>\<open>auth\<close> is an object the caller keeps and may change, so the cable reads \<^verbatim>\<open>auth.token\<close>
  from the world at each call. \<^verbatim>\<open>!endpoint\<close> and \<^verbatim>\<open>!auth.token\<close> hold for
  \<^verbatim>\<open>undefined\<close>/\<^verbatim>\<open>null\<close> (\<open>None\<close>) and for the empty string.
\<close>

record ('c, 'w) Response =
  ok :: bool
  statusText :: string
  json :: "('c, 'w, jsval) task"

type_synonym ('c, 'w) Fetch = "string \<Rightarrow> request \<Rightarrow> ('c, 'w, ('c, 'w) Response) task"

definition makeCable ::
    "('c, 'w) Fetch \<Rightarrow> string option \<Rightarrow> ('w \<Rightarrow> string option) \<Rightarrow> error + ('c, 'w) Cable" where
  "makeCable fetch endpoint auth_token =
     (case endpoint of
        None \<Rightarrow> Inl (Error ''Backend endpoint is not set'')
      | Some url \<Rightarrow>
          if url = [] then Inl (Error ''Backend endpoint is not set'')
          else Inr (\<lambda>feat meth inp w.
            case auth_token w of
              None \<Rightarrow> reject (Error ''User not authenticated, cannot call cable without a token'') w
            | Some token \<Rightarrow>
                if token = [] then
                  reject (Error ''User not authenticated, cannot call cable without a token'') w
                else
                  (let hs = [(''Content-Type'', ''application/json''),
                             (''Authorization'', ''Bearer '' @ token)];
                       payload = JObj [(''feature'', JStr feat), (''method'', JStr meth),
                                       (''input'', inp)];
                       req = \<lparr>headers = hs, http_method = ''POST'',
                              body = JSON_stringify payload\<rparr>
                   in await (emit (FetchCall url req) (fetch url req)) (\<lambda>response.
                        if \<not> ok response then
                          reject (Error (''Failed to call '' @ feat @ ''.'' @ meth @ '': ''
                                          @ statusText response))
                        else json response)) w))"

text \<open>\<^verbatim>\<open>httpCable(endpoint, auth)\<close> of \<^verbatim>\<open>src/src/http.ts\<close>: the same function, the payload inlined.\<close>

definition httpCable ::
    "('c, 'w) Fetch \<Rightarrow> string option \<Rightarrow> ('w \<Rightarrow> string option) \<Rightarrow> error + ('c, 'w) Cable" where
  "httpCable fetch endpoint auth_token =
     (case endpoint of
        None \<Rightarrow> Inl (Error ''Backend endpoint is not set'')
      | Some url \<Rightarrow>
          if url = [] then Inl (Error ''Backend endpoint is not set'')
          else Inr (\<lambda>feat meth inp w.
            case auth_token w of
              None \<Rightarrow> reject (Error ''User not authenticated, cannot call cable without a token'') w
            | Some token \<Rightarrow>
                if token = [] then
                  reject (Error ''User not authenticated, cannot call cable without a token'') w
                else
                  (let hs = [(''Content-Type'', ''application/json''),
                             (''Authorization'', ''Bearer '' @ token)];
                       req = \<lparr>headers = hs, http_method = ''POST'',
                              body = JSON_stringify
                                (JObj [(''feature'', JStr feat), (''method'', JStr meth),
                                       (''input'', inp)])\<rparr>
                   in await (emit (FetchCall url req) (fetch url req)) (\<lambda>response.
                        if \<not> ok response then
                          reject (Error (''Failed to call '' @ feat @ ''.'' @ meth @ '': ''
                                          @ statusText response))
                        else json response)) w))"

text \<open>
  \<^verbatim>\<open>makeRemote(feature, cable)\<close> returns a \<^verbatim>\<open>Proxy\<close> whose \<^verbatim>\<open>get\<close> trap answers every
  property name with an \<^verbatim>\<open>async\<close> function: \<open>makeRemote S feat cable meth\<close> is that function for
  the name \<open>meth\<close>, with the library \<open>S\<close>. Destructuring \<^verbatim>\<open>undefined\<close> throws a
  \<^verbatim>\<open>TypeError\<close>.
\<close>

definition makeRemote ::
    "Sury \<Rightarrow> Schemas AnyFeature \<Rightarrow> ('c, 'w) Cable \<Rightarrow> string \<Rightarrow> jsval
       \<Rightarrow> ('c, 'w, jsval) task" where
  "makeRemote S feat cable meth arg =
     (let featureName = name feat;
          callable = get_prop (schema feat) meth
      in if callable = Missing then
           reject (TypeError ''Cannot destructure property input of callable as it is undefined'')
         else
           await (settle (parseOrThrow S arg (input_of callable))) (\<lambda>parsedInput.
           await (emit (CableCall featureName meth parsedInput)
                       (cable featureName meth parsedInput)) (\<lambda>result.
           settle (parseOrThrow S result (output_of callable)))))"

subsection \<open>The server: routes and the router\<close>

text \<open>
  \<^verbatim>\<open>makeRoute(feature, implFn)\<close>. The factory \<^verbatim>\<open>implFn\<close> is called with the context and
  answers with the implementation object, of type \<^verbatim>\<open>Feature<A>\<close>: a member is an
  \<^verbatim>\<open>async\<close> function or is absent, so the object is the map \<^verbatim>\<open>impl[method]\<close> reads.
\<close>

record ('c, 'w) Route =
  call :: "'c \<Rightarrow> string \<Rightarrow> jsval \<Rightarrow> ('c, 'w, jsval) task"

type_synonym ('c, 'w) Impl = "string \<rightharpoonup> (jsval \<Rightarrow> ('c, 'w, jsval) task)"

definition makeRoute ::
    "Sury \<Rightarrow> Schemas AnyFeature \<Rightarrow> ('c \<Rightarrow> ('c, 'w, ('c, 'w) Impl) task) \<Rightarrow> ('c, 'w) Route" where
  "makeRoute S feat implFn =
     \<lparr>call = (\<lambda>ctx meth arg.
        let callable = get_prop (schema feat) meth
        in if callable = Missing then
             reject (Error (''Method '' @ meth @ '' not found''))
           else
             await (settle (parseOrThrow S arg (input_of callable))) (\<lambda>parsedInput.
             await (emit (FactoryCall ctx) (implFn ctx)) (\<lambda>impl.
               case impl meth of
                 None \<Rightarrow>
                   reject (Error (''Method implementation for '' @ name feat @ ''.'' @ meth
                                   @ '' not found''))
               | Some fn \<Rightarrow>
                   await (emit (ImplCall meth parsedInput) (fn parsedInput)) (\<lambda>result.
                   await (settle (parseOrThrow S result (output_of callable))) (\<lambda>validated.
                   resolve (JSON_stringify validated))))))\<rparr>"

text \<open>
  \<^verbatim>\<open>makeRouter(routes)\<close>. An own property of \<^verbatim>\<open>routes\<close> is a Route. An inherited one passes
  the \<^verbatim>\<open>!route\<close> guard as well: \<^verbatim>\<open>routes["__proto__"]\<close> is \<^verbatim>\<open>Object.prototype\<close>, which has
  no \<^verbatim>\<open>call\<close>, so that calling it throws a \<^verbatim>\<open>TypeError\<close>; any other inherited member is a
  built-in function, whose \<^verbatim>\<open>call\<close> is \<^verbatim>\<open>Function.prototype.call\<close> and runs the built-in on
  the context. What the built-in answers depends on a context the model keeps opaque: that
  case is \<open>Unmodelled\<close>.
\<close>

definition makeRouter ::
    "Sury \<Rightarrow> (string \<rightharpoonup> ('c, 'w) Route) \<Rightarrow> 'c \<Rightarrow> jsval \<Rightarrow> ('c, 'w, jsval) task" where
  "makeRouter S routes ctx payload =
     await (settle (parseOrThrow S payload (Some cableSchema))) (\<lambda>envelope.
       case get_prop routes (ci_feature envelope) of
         Missing \<Rightarrow> reject (Error (''Feature '' @ ci_feature envelope @ '' not found''))
       | Own route \<Rightarrow>
           emit (RouteCall (ci_feature envelope) ctx (ci_method envelope) (ci_input envelope))
                (call route ctx (ci_method envelope) (ci_input envelope))
       | Inherited \<Rightarrow>
           if ci_feature envelope = ''__proto__'' then
             reject (TypeError ''route.call is not a function'')
           else
             reject (Unmodelled (''Object.prototype.'' @ ci_feature envelope @ ''.call'')))"

text \<open>
  The cable of the end-to-end test (\<^verbatim>\<open>src/test/schema.spec.ts\<close>): it hands the envelope to a
  router in the same process and parses the text the router answers with.
\<close>

definition directCable ::
    "('c \<Rightarrow> jsval \<Rightarrow> ('c, 'w, jsval) task) \<Rightarrow> 'c \<Rightarrow> ('c, 'w) Cable" where
  "directCable router ctx feat meth inp =
     (let payload = JObj [(''feature'', JStr feat), (''method'', JStr meth), (''input'', inp)]
      in await (router ctx payload) (\<lambda>result. settle (JSON_parse result)))"


section \<open>Examples\<close>

text \<open>
  Two stand-ins for the library. Handed no schema, the first throws a \<^verbatim>\<open>TypeError\<close> and the
  second a plain \<^verbatim>\<open>Error\<close>; the messages are indicative.
\<close>

definition suryA :: Sury where
  "suryA = \<lparr>no_schema = TypeError ''Cannot read properties of undefined''\<rparr>"

definition suryB :: Sury where
  "suryB = \<lparr>no_schema = Error ''Schema is undefined''\<rparr>"

text \<open>
  The features \<^verbatim>\<open>user\<close> and \<^verbatim>\<open>crew\<close>, their implementations and the mocks are those of the
  tests of the repository; the features \<^verbatim>\<open>log\<close> and \<^verbatim>\<open>calc\<close> are further examples. A
  property read \<^verbatim>\<open>input.id\<close> on a data value:
\<close>

definition dot :: "jsval \<Rightarrow> string \<Rightarrow> jsval" where
  "dot v key = (case v of JObj kvs \<Rightarrow> field kvs key | _ \<Rightarrow> JUndefined)"

text \<open>
  The \<^verbatim>\<open>user\<close> feature with its mock cable and its implementation
  \<^verbatim>\<open>getProfile: async (input) => ({id: input.id, name: "Test"})\<close>.
\<close>

definition userFeature :: "Schemas AnyFeature" where
  "userFeature =
     feature ''user''
       [''getProfile'' \<mapsto>
          transform (S_schema [(''id'', S_number)])
                    (S_schema [(''id'', S_number), (''name'', S_text)])]"

definition mockCable :: "(unit, unit) Cable" where
  "mockCable feat meth inp =
     (if feat = ''user'' \<and> meth = ''getProfile'' then
        resolve (JObj [(''id'', dot inp ''id''), (''name'', JStr ''John Doe'')])
      else resolve JNull)"

definition getProfile :: "jsval \<Rightarrow> (unit, unit, jsval) task" where
  "getProfile inp = resolve (JObj [(''id'', dot inp ''id''), (''name'', JStr ''Test'')])"

definition userImpl :: "unit \<Rightarrow> (unit, unit, (unit, unit) Impl) task" where
  "userImpl ctx = resolve [''getProfile'' \<mapsto> getProfile]"

text \<open>
  The \<^verbatim>\<open>crew\<close> feature of the end-to-end scenario: the context holds the officers, and
  \<^verbatim>\<open>getOfficer: async (input) => ctx.officers.get(input.id)!\<close>.
\<close>

definition crewFeature :: "Schemas AnyFeature" where
  "crewFeature =
     feature ''crew''
       [''getOfficer'' \<mapsto>
          transform (S_schema [(''id'', S_number)])
                    (S_schema [(''id'', S_number), (''name'', S_text), (''rank'', S_text)])]"

definition getOfficer :: "(int \<rightharpoonup> jsval) \<Rightarrow> jsval \<Rightarrow> (int \<rightharpoonup> jsval, unit, jsval) task" where
  "getOfficer officers inp =
     resolve (case dot inp ''id'' of
                JNum i \<Rightarrow> (case officers i of Some officer \<Rightarrow> officer | None \<Rightarrow> JUndefined)
              | _ \<Rightarrow> JUndefined)"

definition crewImpl ::
    "(int \<rightharpoonup> jsval) \<Rightarrow> (int \<rightharpoonup> jsval, unit, (int \<rightharpoonup> jsval, unit) Impl) task" where
  "crewImpl officers = resolve [''getOfficer'' \<mapsto> getOfficer officers]"

definition enterprise :: "int \<rightharpoonup> jsval" where
  "enterprise =
     [1 \<mapsto> JObj [(''id'', JNum 1), (''name'', JStr ''Picard''), (''rank'', JStr ''Captain'')]]"

text \<open>
  A feature whose method answers nothing: \<^verbatim>\<open>log: transform(S.unknown).to(S.unknown)\<close>,
  implemented by \<^verbatim>\<open>log: async (input) => undefined\<close>.
\<close>

definition logFeature :: "Schemas AnyFeature" where
  "logFeature = feature ''log'' [''log'' \<mapsto> transform S_unknown S_unknown]"

definition logMethod :: "jsval \<Rightarrow> (unit, unit, jsval) task" where
  "logMethod inp = resolve JUndefined"

definition logImpl :: "unit \<Rightarrow> (unit, unit, (unit, unit) Impl) task" where
  "logImpl ctx = resolve [''log'' \<mapsto> logMethod]"

text \<open>
  A feature with a schema that coerces (the spec: a schema "returns a validated/coerced value"):
  \<^verbatim>\<open>double: transform(S.to(S.string, S.number)).to(S.number)\<close> takes the decimal text of
  a number, and \<^verbatim>\<open>double: async (n) => 2 * n\<close> implements it.
\<close>

definition S_string_to_number :: "jsval Schema" where
  "S_string_to_number v =
     (case v of
        JStr s \<Rightarrow>
          (case parse_number s of
             Parsed n [] \<Rightarrow> Inr n
           | _ \<Rightarrow> Inl (SchemaError ''Expected a numeric string''))
      | _ \<Rightarrow> Inl (SchemaError ''Expected string''))"

definition calcFeature :: "Schemas AnyFeature" where
  "calcFeature = feature ''calc'' [''double'' \<mapsto> transform S_string_to_number S_number]"

definition double :: "jsval \<Rightarrow> (unit, unit, jsval) task" where
  "double inp = resolve (case inp of JNum n \<Rightarrow> JNum (2 * n) | _ \<Rightarrow> JUndefined)"

definition calcImpl :: "unit \<Rightarrow> (unit, unit, (unit, unit) Impl) task" where
  "calcImpl ctx = resolve [''double'' \<mapsto> double]"

text \<open>
  A \<^verbatim>\<open>fetch\<close> that answers \<^verbatim>\<open>{ok: true, json: async () => ({success: true})}\<close>; the world is
  the token of the \<^verbatim>\<open>auth\<close> object.
\<close>

definition mockFetch :: "(unit, string option) Fetch" where
  "mockFetch url req =
     resolve \<lparr>ok = True, statusText = ''OK'',
              json = resolve (JObj [(''success'', JBool True)])\<rparr>"


section \<open>Properties of the model\<close>

subsection \<open>Tasks, tables and schemas\<close>

lemmas task_defs =
  await_def settle_def emit_def reject_def resolve_def trace_def outcome_def world_def

lemmas sury_defs =
  parseOrThrow_def S_schema_def S_number_def S_text_def S_unknown_def S_string_def field_def
  dot_def

lemma get_prop_Some: "table key = Some v \<Longrightarrow> get_prop table key = Own v"
  by (simp add: get_prop_def)

subsection \<open>Strings survive quoting\<close>

lemma hex_val_hex_digit:
  assumes "n < 16"
  shows "hex_val (hex_digit n) = Some n"
proof -
  have "list_all (\<lambda>k. hex_val (hex_digit k) = Some k) [0..<16]"
    by code_simp
  then have "\<forall>k \<in> {0..<16}. hex_val (hex_digit k) = Some k"
    unfolding list_all_iff set_upt .
  then show ?thesis using assms by simp
qed

lemma parse_chars_QuoteJSONChar:
  "parse_chars Plain acc (QuoteJSONChar c @ rest) = parse_chars Plain (acc @ [c]) rest"
proof -
  have lt: "(of_char c :: nat) < 256" by simp
  have ctl: "(of_char c :: nat) < 32 \<Longrightarrow>
      parse_chars Plain acc
        ([CHR 0x5C, CHR ''u'', CHR ''0'', CHR ''0'',
          hex_digit (of_char c div 16), hex_digit (of_char c mod 16)] @ rest)
      = parse_chars Plain (acc @ [c]) rest"
  proof -
    assume a: "(of_char c :: nat) < 32"
    have d: "(of_char c :: nat) div 16 < 16" using a by simp
    have m: "(of_char c :: nat) mod 16 < 16" by simp
    have z: "hex_val CHR ''0'' = Some 0" by (simp add: hex_val_def)
    have e: "(of_char c :: nat) div 16 * 16 + of_char c mod 16 = of_char c" by simp
    show ?thesis
      using lt by (simp add: z hex_val_hex_digit [OF d] hex_val_hex_digit [OF m] e)
  qed
  show ?thesis
    using ctl by (simp add: QuoteJSONChar_def unescape_def)
qed

lemma parse_chars_quoted:
  "parse_chars Plain acc (concat (map QuoteJSONChar s) @ CHR 0x22 # rest) = Parsed (acc @ s) rest"
  by (induction s arbitrary: acc) (simp_all add: parse_chars_QuoteJSONChar)

lemma parse_chars_QuoteJSONString:
  "parse_chars Plain [] (tl (QuoteJSONString s) @ rest) = Parsed s rest"
  using parse_chars_quoted [of "[]" s rest] by (simp add: QuoteJSONString_def)

subsection \<open>Integers survive printing\<close>

lemma digit_char:
  assumes "d < 10"
  shows "is_digit (dec_digit d)" and "digit_val (dec_digit d) = d"
    and "(dec_digit d = CHR ''0'') = (d = 0)" and "dec_digit d \<noteq> CHR ''-''"
proof -
  have "list_all (\<lambda>k. is_digit (dec_digit k) \<and> digit_val (dec_digit k) = k \<and>
      (dec_digit k = CHR ''0'') = (k = 0) \<and> dec_digit k \<noteq> CHR ''-'') [0..<10]"
    by code_simp
  then have "\<forall>k \<in> {0..<10}. is_digit (dec_digit k) \<and> digit_val (dec_digit k) = k \<and>
      (dec_digit k = CHR ''0'') = (k = 0) \<and> dec_digit k \<noteq> CHR ''-''"
    unfolding list_all_iff set_upt .
  then show "is_digit (dec_digit d)" and "digit_val (dec_digit d) = d"
    and "(dec_digit d = CHR ''0'') = (d = 0)" and "dec_digit d \<noteq> CHR ''-''"
    using assms by simp_all
qed

lemma digits_nonempty: "digits n \<noteq> []"
  by (subst digits.simps) simp

lemma digits_hd_digit: "is_digit (hd (digits n))"
proof (induction n rule: digits.induct)
  case (1 n)
  show ?case
  proof (cases "n < 10")
    case True
    then show ?thesis by (subst digits.simps) (simp add: digit_char)
  next
    case False
    then show ?thesis using 1 by (subst digits.simps) (simp add: digits_nonempty)
  qed
qed

lemma digits_hd_nonzero: "0 < n \<Longrightarrow> hd (digits n) \<noteq> CHR ''0''"
proof (induction n rule: digits.induct)
  case (1 n)
  show ?case
  proof (cases "n < 10")
    case True
    then show ?thesis using 1(2) by (subst digits.simps) (simp add: digit_char)
  next
    case False
    then have "0 < n div 10" by simp
    then show ?thesis using 1(1) False by (subst digits.simps) (simp add: digits_nonempty)
  qed
qed

lemma parse_digits_digits:
  "parse_digits a (digits n @ rest) = parse_digits (a * 10 ^ length (digits n) + n) rest"
proof (induction n arbitrary: a rest rule: digits.induct)
  case (1 n)
  show ?case
  proof (cases "n < 10")
    case True
    then show ?thesis by (subst (1 2) digits.simps) (simp add: digit_char mult.commute)
  next
    case False
    have m: "n mod 10 < 10" by simp
    have "parse_digits a (digits n @ rest)
        = parse_digits a (digits (n div 10) @ dec_digit (n mod 10) # rest)"
      using False by (subst digits.simps) simp
    also have "\<dots> = parse_digits (a * 10 ^ length (digits (n div 10)) + n div 10)
        (dec_digit (n mod 10) # rest)"
      using 1 [OF False, of a "dec_digit (n mod 10) # rest"] by simp
    also have "\<dots> = parse_digits (10 * (a * 10 ^ length (digits (n div 10)) + n div 10) + n mod 10) rest"
      by (simp add: digit_char [OF m])
    also have "10 * (a * 10 ^ length (digits (n div 10)) + n div 10) + n mod 10
        = a * 10 ^ length (digits n) + n"
      using False by (subst (2) digits.simps) (simp add: algebra_simps)
    finally show ?thesis .
  qed
qed

lemma parse_digits_stop: "rest = [] \<or> \<not> is_digit (hd rest) \<Longrightarrow> parse_digits m rest = (m, rest)"
  by (cases rest) auto

lemma closes_no_digit: "closes rest \<Longrightarrow> rest = [] \<or> \<not> is_digit (hd rest)"
  by (auto simp: closes_def is_digit_def)

lemma parse_int_digits:
  assumes "closes rest"
  shows "parse_int (digits n @ rest) = Parsed n rest"
proof (cases "n = 0")
  case True
  then show ?thesis by (subst digits.simps) (simp add: parse_int_def dec_digit_def)
next
  case False
  obtain c cs where d: "digits n = c # cs"
    using digits_nonempty [of n] by (cases "digits n") auto
  have c0: "c \<noteq> CHR ''0''" using digits_hd_nonzero [of n] False d by simp
  have cd: "is_digit c" using digits_hd_digit [of n] d by simp
  have "parse_digits (digit_val c) (cs @ rest) = parse_digits 0 (digits n @ rest)"
    using cd d by simp
  also have "\<dots> = (n, rest)"
    using parse_digits_digits [of 0 n rest] parse_digits_stop [OF closes_no_digit [OF assms]]
    by simp
  finally show ?thesis
    using c0 cd d by (simp add: parse_int_def)
qed

lemma integral_closes: "closes rest \<Longrightarrow> integral i rest = Parsed (JNum i) rest"
  by (cases rest) (auto simp: integral_def closes_def)

lemma parse_number_NumberToString:
  assumes "closes rest"
  shows "parse_number (NumberToString i @ rest) = Parsed (JNum i) rest"
proof (cases "i < 0")
  case True
  then show ?thesis
    by (simp add: NumberToString_def parse_number_def parse_int_digits [OF assms]
          integral_closes [OF assms])
next
  case False
  obtain c cs where d: "digits (nat i) = c # cs"
    using digits_nonempty [of "nat i"] by (cases "digits (nat i)") auto
  have "is_digit c" using digits_hd_digit [of "nat i"] d by simp
  then have cm: "c \<noteq> CHR ''-''" by (auto simp: is_digit_def)
  have "parse_int (c # cs @ rest) = Parsed (nat i) rest"
    using parse_int_digits [OF assms, of "nat i"] d by simp
  then show ?thesis
    using False cm d
    by (simp add: NumberToString_def parse_number_def integral_closes [OF assms])
qed

subsection \<open>Values survive serialization\<close>

lemma skip_ws_keep: "\<not> is_ws c \<Longrightarrow> skip_ws (c # cs) = c # cs"
  by (simp add: skip_ws_def)

lemma closes_Cons [simp]:
  "closes (CHR '','' # r)" "closes (CHR '']'' # r)" "closes (CHR ''}'' # r)" "closes []"
  by (simp_all add: closes_def)

lemma NumberToString_first:
  "\<exists>c cs. NumberToString i = c # cs \<and> (c = CHR ''-'' \<or> is_digit c)"
proof -
  obtain c cs where d: "digits (nat \<bar>i\<bar>) = c # cs"
    using digits_nonempty [of "nat \<bar>i\<bar>"] by (cases "digits (nat \<bar>i\<bar>)") auto
  have "is_digit c" using digits_hd_digit [of "nat \<bar>i\<bar>"] d by simp
  then show ?thesis
    using d by (cases "i < 0") (auto simp: NumberToString_def abs_if)
qed

lemma SerializeJSONProperty_first:
  "\<exists>c cs. SerializeJSONProperty v = c # cs \<and> \<not> is_ws c \<and> c \<noteq> CHR '']'' \<and> c \<noteq> CHR ''}''"
proof (cases v)
  case (JNum i)
  obtain c cs where "NumberToString i = c # cs" and "c = CHR ''-'' \<or> is_digit c"
    using NumberToString_first by blast
  then show ?thesis using JNum by (auto simp: is_ws_def is_digit_def)
qed (auto simp: is_ws_def QuoteJSONString_def)

lemma skip_ws_SerializeJSONProperty:
  "skip_ws (SerializeJSONProperty v @ r) = SerializeJSONProperty v @ r"
  using SerializeJSONProperty_first [of v] by (auto simp: skip_ws_keep)

lemma parse_value_scalar:
  assumes "closes rest"
  shows "parse_value (Suc n) (''null'' @ rest) = Parsed JNull rest"
    and "parse_value (Suc n) (''true'' @ rest) = Parsed (JBool True) rest"
    and "parse_value (Suc n) (''false'' @ rest) = Parsed (JBool False) rest"
    and "parse_value (Suc n) (NumberToString i @ rest) = Parsed (JNum i) rest"
    and "parse_value (Suc n) (QuoteJSONString s @ rest) = Parsed (JStr s) rest"
proof -
  show "parse_value (Suc n) (''null'' @ rest) = Parsed JNull rest"
    by (simp add: skip_ws_keep is_ws_def parse_literal_def)
  show "parse_value (Suc n) (''true'' @ rest) = Parsed (JBool True) rest"
    by (simp add: skip_ws_keep is_ws_def parse_literal_def)
  show "parse_value (Suc n) (''false'' @ rest) = Parsed (JBool False) rest"
    by (simp add: skip_ws_keep is_ws_def parse_literal_def)
  show "parse_value (Suc n) (NumberToString i @ rest) = Parsed (JNum i) rest"
  proof -
    obtain c cs where d: "NumberToString i = c # cs" and c: "c = CHR ''-'' \<or> is_digit c"
      using NumberToString_first by blast
    have w: "\<not> is_ws c" using c by (auto simp: is_ws_def is_digit_def)
    have o: "c \<noteq> CHR ''n''" "c \<noteq> CHR ''t''" "c \<noteq> CHR ''f''" "c \<noteq> CHR 0x22" "c \<noteq> CHR ''[''"
      "c \<noteq> CHR ''{''"
      using c by (auto simp: is_digit_def)
    have "parse_value (Suc n) (c # cs @ rest) = parse_number (c # cs @ rest)"
      using c o by (simp add: skip_ws_keep [OF w])
    then show ?thesis
      using parse_number_NumberToString [OF assms, of i] d by simp
  qed
  show "parse_value (Suc n) (QuoteJSONString s @ rest) = Parsed (JStr s) rest"
    using parse_chars_QuoteJSONString [of s rest]
    by (simp add: QuoteJSONString_def skip_ws_keep is_ws_def)
qed

lemma parse_elements_join:
  assumes "xs \<noteq> []"
    and "\<And>x m r. x \<in> set xs \<Longrightarrow> size x < m \<Longrightarrow> closes r \<Longrightarrow>
           parse_value m (SerializeJSONProperty x @ r) = Parsed x r"
    and "size_list size xs < n"
  shows "parse_elements n acc (join '','' (map SerializeJSONProperty xs) @ CHR '']'' # rest)
           = Parsed (JArr (acc @ xs)) rest"
  using assms
proof (induction xs arbitrary: n acc)
  case Nil
  then show ?case by simp
next
  case (Cons x xs)
  obtain m where n: "n = Suc m" using Cons.prems(3) by (cases n) auto
  have sx: "size x < m" using Cons.prems(3) n by simp
  show ?case
  proof (cases xs)
    case Nil
    have "parse_value m (SerializeJSONProperty x @ CHR '']'' # rest) = Parsed x (CHR '']'' # rest)"
      using Cons.prems(2) [of x m "CHR '']'' # rest"] sx by simp
    then show ?thesis
      using Nil n by (simp add: skip_ws_keep is_ws_def)
  next
    case (Cons y ys)
    let ?tail = "join '','' (map SerializeJSONProperty xs) @ CHR '']'' # rest"
    have "parse_value m (SerializeJSONProperty x @ CHR '','' # ?tail) = Parsed x (CHR '','' # ?tail)"
      using Cons.prems(2) [of x m "CHR '','' # ?tail"] sx by simp
    moreover have "parse_elements m (acc @ [x]) ?tail = Parsed (JArr ((acc @ [x]) @ xs)) rest"
    proof (rule Cons.IH)
      show "xs \<noteq> []" using Cons by simp
      show "size_list size xs < m" using Cons.prems(3) n by simp
      show "\<And>x m r. x \<in> set xs \<Longrightarrow> size x < m \<Longrightarrow> closes r \<Longrightarrow>
           parse_value m (SerializeJSONProperty x @ r) = Parsed x r"
        using Cons.prems(2) by simp
    qed
    ultimately show ?thesis
      using Cons n by (simp add: skip_ws_keep is_ws_def)
  qed
qed

lemma set_property_fresh: "k \<notin> fst ` set acc \<Longrightarrow> set_property acc k v = acc @ [(k, v)]"
  by (induction acc) auto

lemma parse_members_join:
  assumes "kvs \<noteq> []"
    and "\<And>k v m r. (k, v) \<in> set kvs \<Longrightarrow> size v < m \<Longrightarrow> closes r \<Longrightarrow>
           parse_value m (SerializeJSONProperty v @ r) = Parsed v r"
    and "distinct (map fst (acc @ kvs))"
    and "size_list (\<lambda>kv. size (snd kv)) kvs < n"
  shows "parse_members n acc
           (join '','' (map (\<lambda>(k, v). QuoteJSONString k @ '':'' @ SerializeJSONProperty v) kvs)
              @ CHR ''}'' # rest)
           = Parsed (JObj (acc @ kvs)) rest"
  using assms
proof (induction kvs arbitrary: n acc)
  case Nil
  then show ?case by simp
next
  case (Cons kv kvs)
  obtain k v where kv: "kv = (k, v)" by (cases kv)
  obtain m where n: "n = Suc m" using Cons.prems(4) by (cases n) auto
  have sv: "size v < m" using Cons.prems(4) n kv by simp
  have fresh: "k \<notin> fst ` set acc" using Cons.prems(3) kv by auto
  have key: "\<And>r. parse_chars Plain [] (tl (QuoteJSONString k) @ r) = Parsed k r"
    by (rule parse_chars_QuoteJSONString)
  have q: "\<And>r. QuoteJSONString k @ r = CHR 0x22 # (tl (QuoteJSONString k) @ r)"
    by (simp add: QuoteJSONString_def)
  show ?case
  proof (cases kvs)
    case Nil
    have "parse_value m (SerializeJSONProperty v @ CHR ''}'' # rest) = Parsed v (CHR ''}'' # rest)"
      using Cons.prems(2) [of k v m "CHR ''}'' # rest"] sv kv by simp
    then show ?thesis
      using Nil n kv
      by (simp add: q key skip_ws_keep is_ws_def set_property_fresh [OF fresh])
  next
    case (Cons kv' kvs')
    let ?tail = "join '','' (map (\<lambda>(k, v). QuoteJSONString k @ '':'' @ SerializeJSONProperty v) kvs)
                   @ CHR ''}'' # rest"
    have "parse_value m (SerializeJSONProperty v @ CHR '','' # ?tail) = Parsed v (CHR '','' # ?tail)"
      using Cons.prems(2) [of k v m "CHR '','' # ?tail"] sv kv by simp
    moreover have "parse_members m (acc @ [(k, v)]) ?tail = Parsed (JObj ((acc @ [(k, v)]) @ kvs)) rest"
    proof (rule Cons.IH)
      show "kvs \<noteq> []" using Cons by simp
      show "size_list (\<lambda>kv. size (snd kv)) kvs < m" using Cons.prems(4) n by simp
      show "distinct (map fst ((acc @ [(k, v)]) @ kvs))" using Cons.prems(3) kv by simp
      show "\<And>k v m r. (k, v) \<in> set kvs \<Longrightarrow> size v < m \<Longrightarrow> closes r \<Longrightarrow>
           parse_value m (SerializeJSONProperty v @ r) = Parsed v r"
        using Cons.prems(2) by (meson list.set_intros(2))
    qed
    ultimately show ?thesis
      using Cons n kv
      by (simp add: q key skip_ws_keep is_ws_def set_property_fresh [OF fresh])
  qed
qed

lemma join_Cons: "join sep (y # ys) = y @ (if ys = [] then [] else sep @ join sep ys)"
  by (cases ys) simp_all

lemma join_first:
  assumes "ys \<noteq> []" and "hd ys = c # cs"
  shows "\<exists>t. join sep ys @ r = c # t"
  using assms by (cases ys) (auto simp: join_Cons)

lemma parse_value_array_start:
  "\<not> is_ws c \<Longrightarrow> c \<noteq> CHR '']'' \<Longrightarrow>
     parse_value (Suc m) (CHR ''['' # c # cs) = parse_elements m [] (c # cs)"
  by (simp add: skip_ws_keep is_ws_def)

lemma parse_value_object_start:
  "parse_value (Suc m) (CHR ''{'' # CHR 0x22 # cs) = parse_members m [] (CHR 0x22 # cs)"
  by (simp add: skip_ws_keep is_ws_def)

lemma json_value_filter:
  "list_all (\<lambda>kv. json_value (snd kv)) kvs \<Longrightarrow> filter (\<lambda>(k, v). v \<noteq> JUndefined) kvs = kvs"
  by (induction kvs) auto

lemma parse_value_SerializeJSONProperty:
  "json_value v \<Longrightarrow> size v < n \<Longrightarrow> closes rest \<Longrightarrow>
     parse_value n (SerializeJSONProperty v @ rest) = Parsed v rest"
proof (induction v arbitrary: n rest)
  case JUndefined
  then show ?case by simp
next
  case JNull
  then show ?case using parse_value_scalar(1) [of rest "n - 1"] by (cases n) auto
next
  case (JBool b)
  then show ?case
    using parse_value_scalar(2) [of rest "n - 1"] parse_value_scalar(3) [of rest "n - 1"]
    by (cases n) auto
next
  case (JNum i)
  then show ?case using parse_value_scalar(4) [of rest "n - 1" i] by (cases n) auto
next
  case (JStr s)
  then show ?case using parse_value_scalar(5) [of rest "n - 1" s] by (cases n) auto
next
  case (JArr xs)
  obtain m where n: "n = Suc m" using JArr.prems(2) by (cases n) auto
  show ?case
  proof (cases "xs = []")
    case True
    then show ?thesis using n by (simp add: skip_ws_keep is_ws_def)
  next
    case False
    let ?body = "join '','' (map SerializeJSONProperty xs) @ CHR '']'' # rest"
    obtain c cs where f: "SerializeJSONProperty (hd xs) = c # cs" and w: "\<not> is_ws c"
      and b: "c \<noteq> CHR '']''"
      using SerializeJSONProperty_first [of "hd xs"] by blast
    obtain t where body: "?body = c # t"
      using join_first [of "map SerializeJSONProperty xs" c cs "'',''" "CHR '']'' # rest"] False f
      by (auto simp: hd_map)
    have el: "parse_elements m [] ?body = Parsed (JArr ([] @ xs)) rest"
    proof (rule parse_elements_join [OF False])
      show "size_list size xs < m" using JArr.prems(2) n by simp
      show "\<And>x m r. x \<in> set xs \<Longrightarrow> size x < m \<Longrightarrow> closes r \<Longrightarrow>
           parse_value m (SerializeJSONProperty x @ r) = Parsed x r"
        using JArr.IH JArr.prems(1) by (simp add: list_all_iff)
    qed
    have "parse_value (Suc m) (CHR ''['' # ?body) = parse_elements m [] ?body"
      unfolding body by (rule parse_value_array_start [OF w b])
    then show ?thesis using el n by simp
  qed
next
  case (JObj kvs)
  obtain m where n: "n = Suc m" using JObj.prems(2) by (cases n) auto
  have flt: "filter (\<lambda>(k, v). v \<noteq> JUndefined) kvs = kvs"
    using JObj.prems(1) by (simp add: json_value_filter)
  show ?case
  proof (cases "kvs = []")
    case True
    then show ?thesis using n by (simp add: skip_ws_keep is_ws_def)
  next
    case False
    let ?texts = "map (\<lambda>(k, v). QuoteJSONString k @ '':'' @ SerializeJSONProperty v) kvs"
    let ?body = "join '','' ?texts @ CHR ''}'' # rest"
    have h: "hd ?texts = CHR 0x22 # tl (hd ?texts)"
      using False by (cases kvs) (auto simp: QuoteJSONString_def)
    obtain t where body: "?body = CHR 0x22 # t"
      using join_first [of ?texts "CHR 0x22" "tl (hd ?texts)" "'',''" "CHR ''}'' # rest"] False h
      by auto
    have le: "size_list (\<lambda>kv. size (snd kv)) kvs \<le> size_list (size_prod (\<lambda>x. 0) size) kvs"
      by (rule size_list_pointwise) auto
    have el: "parse_members m [] ?body = Parsed (JObj ([] @ kvs)) rest"
    proof (rule parse_members_join [OF False])
      show "size_list (\<lambda>kv. size (snd kv)) kvs < m" using JObj.prems(2) n le by simp
      show "distinct (map fst ([] @ kvs))" using JObj.prems(1) by simp
      show "\<And>k v m r. (k, v) \<in> set kvs \<Longrightarrow> size v < m \<Longrightarrow> closes r \<Longrightarrow>
           parse_value m (SerializeJSONProperty v @ r) = Parsed v r"
        using JObj.IH JObj.prems(1) by (fastforce simp: list_all_iff)
    qed
    have "parse_value (Suc m) (CHR ''{'' # ?body) = parse_members m [] ?body"
      unfolding body by (rule parse_value_object_start)
    then show ?thesis using el n flt by simp
  qed
qed

lemma size_list_join: "size_list length ys \<le> Suc (length (join '','' ys))"
  by (induction ys rule: induct_list012) auto

lemma size_le_length: "json_value v \<Longrightarrow> size v \<le> length (SerializeJSONProperty v)"
proof (induction v)
  case (JArr xs)
  have "size_list size xs \<le> size_list (length \<circ> SerializeJSONProperty) xs"
    using JArr by (intro size_list_pointwise) (auto simp: list_all_iff)
  also have "\<dots> \<le> Suc (length (join '','' (map SerializeJSONProperty xs)))"
    using size_list_join [of "map SerializeJSONProperty xs"] by (simp add: size_list_map)
  finally show ?case by simp
next
  case (JObj kvs)
  let ?text = "\<lambda>(k, v). QuoteJSONString k @ '':'' @ SerializeJSONProperty v"
  have flt: "filter (\<lambda>(k, v). v \<noteq> JUndefined) kvs = kvs"
    using JObj.prems by (simp add: json_value_filter)
  have "size_list (size_prod (\<lambda>x. 0) size) kvs \<le> size_list (length \<circ> ?text) kvs"
  proof (rule size_list_pointwise)
    fix kv assume kv: "kv \<in> set kvs"
    obtain k v where e: "kv = (k, v)" by (cases kv)
    have "size v \<le> length (SerializeJSONProperty v)"
      using JObj.IH [of kv v] JObj.prems kv e by (auto simp: list_all_iff)
    then show "size_prod (\<lambda>x. 0) size kv \<le> (length \<circ> ?text) kv"
      using e by simp
  qed
  also have "\<dots> \<le> Suc (length (join '','' (map ?text kvs)))"
    using size_list_join [of "map ?text kvs"] by (simp add: size_list_map)
  finally show ?case using flt by simp
qed simp_all

lemma JSON_roundtrip:
  assumes "json_value v"
  shows "JSON_parse (JSON_stringify v) = Inr v"
proof -
  have u: "v \<noteq> JUndefined" using assms by auto
  have "parse_value (2 * length (SerializeJSONProperty v) + 2) (SerializeJSONProperty v @ [])
          = Parsed v []"
    using assms size_le_length [OF assms]
    by (intro parse_value_SerializeJSONProperty) (simp_all add: closes_def)
  then show ?thesis
    using u by (simp add: JSON_parse_def JSON_stringify_def skip_ws_def)
qed


subsection \<open>The parser has fuel enough\<close>

text \<open>
  Every step of the parser that succeeds consumes some of the text, so that the fuel
  \<open>JSON_parse\<close> provides, twice the length of the text and two more, never runs out.
\<close>

lemma length_skip_ws: "length (skip_ws s) \<le> length s"
  by (simp add: skip_ws_def length_dropWhile_le)

lemma skip_ws_Cons_length: "skip_ws s = c # cs \<Longrightarrow> length cs < length s"
  using length_skip_ws [of s] by simp

lemma parse_chars_consumes: "parse_chars st acc s = Parsed x rest \<Longrightarrow> length rest < length s"
  by (induction st acc s rule: parse_chars.induct)
     (fastforce split: if_splits option.splits)+

lemma parse_digits_consumes: "parse_digits n s = (m, rest) \<Longrightarrow> length rest \<le> length s"
  by (induction s arbitrary: n) (auto split: if_splits simp: le_SucI)

lemma parse_int_consumes: "parse_int s = Parsed n rest \<Longrightarrow> length rest < length s"
  using parse_digits_consumes
  by (fastforce simp: parse_int_def split: list.splits if_splits prod.splits)

lemma integral_rest: "integral i r = Parsed v rest \<Longrightarrow> rest = r"
  by (auto simp: integral_def split: list.splits if_splits)

lemma parse_number_consumes: "parse_number s = Parsed v rest \<Longrightarrow> length rest < length s"
  using parse_int_consumes integral_rest
  by (fastforce simp: parse_number_def split: list.splits if_splits parsed.splits)

lemma parse_literal_consumes:
  "parse_literal kw x s = Parsed v rest \<Longrightarrow> kw \<noteq> [] \<Longrightarrow> length rest < length s"
  by (cases s) (auto simp: parse_literal_def split: if_splits)

lemma parse_consumes:
  "(\<forall>s v rest. parse_value n s = Parsed v rest \<longrightarrow> length rest < length s) \<and>
   (\<forall>acc s v rest. parse_elements n acc s = Parsed v rest \<longrightarrow> length rest < length s) \<and>
   (\<forall>acc s v rest. parse_members n acc s = Parsed v rest \<longrightarrow> length rest < length s)"
proof (induction n)
  case 0
  show ?case by simp
next
  case (Suc n)
  have IHv: "\<And>s v rest. parse_value n s = Parsed v rest \<Longrightarrow> length rest < length s"
    using Suc by blast
  have IHe: "\<And>acc s v rest. parse_elements n acc s = Parsed v rest \<Longrightarrow> length rest < length s"
    using Suc by blast
  have IHm: "\<And>acc s v rest. parse_members n acc s = Parsed v rest \<Longrightarrow> length rest < length s"
    using Suc by blast
  have val: "parse_value (Suc n) s = Parsed v rest \<Longrightarrow> length rest < length s" for s v rest
  proof -
    assume p: "parse_value (Suc n) s = Parsed v rest"
    obtain c cs where sk: "skip_ws s = c # cs"
      using p by (cases "skip_ws s") auto
    have cs: "length cs < length s" using skip_ws_Cons_length [OF sk] .
    have full: "length (c # cs) \<le> length s" using length_skip_ws [of s] sk by simp
    consider (nul) "c = CHR ''n''" | (tru) "c = CHR ''t''" | (fal) "c = CHR ''f''"
      | (str) "c = CHR 0x22" | (arr) "c = CHR ''[''" | (obj) "c = CHR ''{''"
      | (num) "c \<noteq> CHR ''n''" "c \<noteq> CHR ''t''" "c \<noteq> CHR ''f''" "c \<noteq> CHR 0x22"
              "c \<noteq> CHR ''[''" "c \<noteq> CHR ''{''"
      by blast
    then show ?thesis
    proof cases
      case nul
      then have "parse_literal ''null'' JNull (c # cs) = Parsed v rest"
        using p sk by simp
      then have "length rest < length (c # cs)" by (rule parse_literal_consumes) simp
      then show ?thesis using full by simp
    next
      case tru
      then have "parse_literal ''true'' (JBool True) (c # cs) = Parsed v rest"
        using p sk by simp
      then have "length rest < length (c # cs)" by (rule parse_literal_consumes) simp
      then show ?thesis using full by simp
    next
      case fal
      then have "parse_literal ''false'' (JBool False) (c # cs) = Parsed v rest"
        using p sk by simp
      then have "length rest < length (c # cs)" by (rule parse_literal_consumes) simp
      then show ?thesis using full by simp
    next
      case str
      then obtain x where "parse_chars Plain [] cs = Parsed x rest"
        using p sk by (simp split: parsed.splits)
      then have "length rest < length cs" by (rule parse_chars_consumes)
      then show ?thesis using cs by simp
    next
      case arr
      then obtain d r where sk2: "skip_ws cs = d # r"
        using p sk by (cases "skip_ws cs") simp_all
      have r: "length r < length cs" using skip_ws_Cons_length [OF sk2] .
      show ?thesis
      proof (cases "d = CHR '']''")
        case True
        then have "rest = r" using p sk arr sk2 by simp
        then show ?thesis using r cs by simp
      next
        case False
        then have "parse_elements n [] cs = Parsed v rest" using p sk arr sk2 by simp
        then have "length rest < length cs" by (rule IHe)
        then show ?thesis using cs by simp
      qed
    next
      case obj
      then obtain d r where sk2: "skip_ws cs = d # r"
        using p sk by (cases "skip_ws cs") simp_all
      have r: "length r < length cs" using skip_ws_Cons_length [OF sk2] .
      show ?thesis
      proof (cases "d = CHR ''}''")
        case True
        then have "rest = r" using p sk obj sk2 by simp
        then show ?thesis using r cs by simp
      next
        case False
        then have "parse_members n [] cs = Parsed v rest" using p sk obj sk2 by simp
        then have "length rest < length cs" by (rule IHm)
        then show ?thesis using cs by simp
      qed
    next
      case num
      then have "parse_number (c # cs) = Parsed v rest"
        using p sk by (simp split: if_splits)
      then have "length rest < length (c # cs)" by (rule parse_number_consumes)
      then show ?thesis using full by simp
    qed
  qed
  have el: "parse_elements (Suc n) acc s = Parsed v rest \<Longrightarrow> length rest < length s"
    for acc s v rest
  proof -
    assume p: "parse_elements (Suc n) acc s = Parsed v rest"
    obtain x r where v1: "parse_value n s = Parsed x r"
      using p by (cases "parse_value n s") simp_all
    have r: "length r < length s" using v1 by (rule IHv)
    obtain c r' where sk: "skip_ws r = c # r'"
      using p v1 by (cases "skip_ws r") simp_all
    have r': "length r' < length r" using skip_ws_Cons_length [OF sk] .
    show ?thesis
    proof (cases "c = CHR '',''")
      case True
      then have "parse_elements n (acc @ [x]) r' = Parsed v rest" using p v1 sk by simp
      then have "length rest < length r'" by (rule IHe)
      then show ?thesis using r r' by simp
    next
      case False
      then have "rest = r'" using p v1 sk by (simp split: if_splits)
      then show ?thesis using r r' by simp
    qed
  qed
  have me: "parse_members (Suc n) acc s = Parsed v rest \<Longrightarrow> length rest < length s"
    for acc s v rest
  proof -
    assume p: "parse_members (Suc n) acc s = Parsed v rest"
    obtain c cs where sk: "skip_ws s = c # cs"
      using p by (cases "skip_ws s") simp_all
    have q: "c = CHR 0x22" using p sk by (simp split: if_splits)
    have cs: "length cs < length s" using skip_ws_Cons_length [OF sk] .
    obtain k r where k: "parse_chars Plain [] cs = Parsed k r"
      using p sk q by (cases "parse_chars Plain [] cs") simp_all
    have r: "length r < length cs" using parse_chars_consumes [OF k] .
    obtain c2 r2 where sk2: "skip_ws r = c2 # r2"
      using p sk q k by (cases "skip_ws r") simp_all
    have q2: "c2 = CHR '':''" using p sk q k sk2 by (simp split: if_splits)
    have r2: "length r2 < length r" using skip_ws_Cons_length [OF sk2] .
    obtain x r3 where v1: "parse_value n r2 = Parsed x r3"
      using p sk q k sk2 q2 by (cases "parse_value n r2") simp_all
    have r3: "length r3 < length r2" using v1 by (rule IHv)
    obtain c3 r4 where sk3: "skip_ws r3 = c3 # r4"
      using p sk q k sk2 q2 v1 by (cases "skip_ws r3") simp_all
    have r4: "length r4 < length r3" using skip_ws_Cons_length [OF sk3] .
    show ?thesis
    proof (cases "c3 = CHR '',''")
      case True
      then have "parse_members n (set_property acc k x) r4 = Parsed v rest"
        using p sk q k sk2 q2 v1 sk3 by simp
      then have "length rest < length r4" by (rule IHm)
      then show ?thesis using cs r r2 r3 r4 by simp
    next
      case False
      then have "rest = r4" using p sk q k sk2 q2 v1 sk3 by (simp split: if_splits)
      then show ?thesis using cs r r2 r3 r4 by simp
    qed
  qed
  show ?case using val el me by blast
qed

lemma parse_chars_fuel: "parse_chars st acc s \<noteq> Failed (Unmodelled ''nesting too deep'')"
  by (induction st acc s rule: parse_chars.induct) (simp_all split: option.splits)

lemma integral_fuel: "integral i r \<noteq> Failed (Unmodelled ''nesting too deep'')"
  by (cases r) (simp_all add: integral_def)

lemma parse_int_fuel: "parse_int s \<noteq> Failed (Unmodelled ''nesting too deep'')"
  by (cases s) (simp_all add: parse_int_def split: prod.splits)

lemma parse_number_fuel: "parse_number s \<noteq> Failed (Unmodelled ''nesting too deep'')"
proof (cases s)
  case Nil
  then show ?thesis by (simp add: parse_number_def)
next
  case (Cons c cs)
  show ?thesis
  proof (cases "c = CHR ''-''")
    case True
    then show ?thesis
      using Cons parse_int_fuel [of cs] integral_fuel
      by (cases "parse_int cs") (simp_all add: parse_number_def)
  next
    case False
    then show ?thesis
      using Cons parse_int_fuel [of s] integral_fuel
      by (cases "parse_int s") (simp_all add: parse_number_def)
  qed
qed

lemma parse_literal_fuel: "parse_literal kw x s \<noteq> Failed (Unmodelled ''nesting too deep'')"
  by (simp add: parse_literal_def)

lemma fuel_value_step:
  assumes IHe: "\<And>acc s. 2 * length s + 3 \<le> n \<Longrightarrow>
              parse_elements n acc s \<noteq> Failed (Unmodelled ''nesting too deep'')"
    and IHm: "\<And>acc s. 2 * length s + 3 \<le> n \<Longrightarrow>
              parse_members n acc s \<noteq> Failed (Unmodelled ''nesting too deep'')"
    and b: "2 * length s + 2 \<le> Suc n"
  shows "parse_value (Suc n) s \<noteq> Failed (Unmodelled ''nesting too deep'')"
proof (cases "skip_ws s")
  case Nil
  then show ?thesis by simp
next
  case (Cons c cs)
  have cs: "length cs < length s" using skip_ws_Cons_length [OF Cons] .
  consider (nul) "c = CHR ''n''" | (tru) "c = CHR ''t''" | (fal) "c = CHR ''f''"
    | (str) "c = CHR 0x22" | (arr) "c = CHR ''[''" | (obj) "c = CHR ''{''"
    | (num) "c \<noteq> CHR ''n''" "c \<noteq> CHR ''t''" "c \<noteq> CHR ''f''" "c \<noteq> CHR 0x22"
            "c \<noteq> CHR ''[''" "c \<noteq> CHR ''{''"
    by blast
  then show ?thesis
  proof cases
    case nul
    then show ?thesis using Cons parse_literal_fuel [of "''null''" JNull "c # cs"] by simp
  next
    case tru
    then show ?thesis using Cons parse_literal_fuel [of "''true''" "JBool True" "c # cs"] by simp
  next
    case fal
    then show ?thesis using Cons parse_literal_fuel [of "''false''" "JBool False" "c # cs"] by simp
  next
    case str
    then show ?thesis
      using Cons parse_chars_fuel [of Plain "[]" cs]
      by (cases "parse_chars Plain [] cs") simp_all
  next
    case arr
    have e: "parse_elements n [] cs \<noteq> Failed (Unmodelled ''nesting too deep'')"
      using b cs by (intro IHe) simp
    show ?thesis
    proof (cases "skip_ws cs")
      case Nil
      then show ?thesis using Cons arr by simp
    next
      case d: (Cons d r)
      then show ?thesis using Cons arr e by simp
    qed
  next
    case obj
    have e: "parse_members n [] cs \<noteq> Failed (Unmodelled ''nesting too deep'')"
      using b cs by (intro IHm) simp
    show ?thesis
    proof (cases "skip_ws cs")
      case Nil
      then show ?thesis using Cons obj by simp
    next
      case d: (Cons d r)
      then show ?thesis using Cons obj e by simp
    qed
  next
    case num
    then show ?thesis using Cons parse_number_fuel [of "c # cs"] by simp
  qed
qed

lemma parse_value_consumes: "parse_value n s = Parsed v rest \<Longrightarrow> length rest < length s"
  using parse_consumes [of n] by blast

lemma fuel_elements_step:
  assumes IHv: "\<And>s. 2 * length s + 2 \<le> n \<Longrightarrow>
              parse_value n s \<noteq> Failed (Unmodelled ''nesting too deep'')"
    and IHe: "\<And>acc s. 2 * length s + 3 \<le> n \<Longrightarrow>
              parse_elements n acc s \<noteq> Failed (Unmodelled ''nesting too deep'')"
    and b: "2 * length s + 3 \<le> Suc n"
  shows "parse_elements (Suc n) acc s \<noteq> Failed (Unmodelled ''nesting too deep'')"
proof (cases "parse_value n s")
  case (Failed e)
  have "parse_value n s \<noteq> Failed (Unmodelled ''nesting too deep'')"
    using b by (intro IHv) simp
  then show ?thesis using Failed by simp
next
  case (Parsed x r)
  have r: "length r < length s" using Parsed by (rule parse_value_consumes)
  show ?thesis
  proof (cases "skip_ws r")
    case Nil
    then show ?thesis using Parsed by simp
  next
    case (Cons c r')
    have r': "length r' < length r" using skip_ws_Cons_length [OF Cons] .
    have "parse_elements n (acc @ [x]) r' \<noteq> Failed (Unmodelled ''nesting too deep'')"
      using b r r' by (intro IHe) simp
    then show ?thesis using Parsed Cons by simp
  qed
qed

lemma fuel_members_step:
  assumes IHv: "\<And>s. 2 * length s + 2 \<le> n \<Longrightarrow>
              parse_value n s \<noteq> Failed (Unmodelled ''nesting too deep'')"
    and IHm: "\<And>acc s. 2 * length s + 3 \<le> n \<Longrightarrow>
              parse_members n acc s \<noteq> Failed (Unmodelled ''nesting too deep'')"
    and b: "2 * length s + 3 \<le> Suc n"
  shows "parse_members (Suc n) acc s \<noteq> Failed (Unmodelled ''nesting too deep'')"
proof (cases "skip_ws s")
  case Nil
  then show ?thesis by simp
next
  case (Cons c cs)
  have cs: "length cs < length s" using skip_ws_Cons_length [OF Cons] .
  show ?thesis
  proof (cases "parse_chars Plain [] cs")
    case (Failed e)
    then show ?thesis using Cons parse_chars_fuel [of Plain "[]" cs] by simp
  next
    case (Parsed k r)
    have r: "length r < length cs" using parse_chars_consumes [OF Parsed] .
    show ?thesis
    proof (cases "skip_ws r")
      case Nil
      then show ?thesis using Cons Parsed by simp
    next
      case c2: (Cons c2 r2)
      have r2: "length r2 < length r" using skip_ws_Cons_length [OF c2] .
      show ?thesis
      proof (cases "parse_value n r2")
        case (Failed e)
        have "parse_value n r2 \<noteq> Failed (Unmodelled ''nesting too deep'')"
          using b cs r r2 by (intro IHv) simp
        then show ?thesis using Cons Parsed c2 Failed by simp
      next
        case v: (Parsed x r3)
        have r3: "length r3 < length r2" using v by (rule parse_value_consumes)
        show ?thesis
        proof (cases "skip_ws r3")
          case Nil
          then show ?thesis using Cons Parsed c2 v by simp
        next
          case c3: (Cons c3 r4)
          have r4: "length r4 < length r3" using skip_ws_Cons_length [OF c3] .
          have "parse_members n (set_property acc k x) r4
                  \<noteq> Failed (Unmodelled ''nesting too deep'')"
            using b cs r r2 r3 r4 by (intro IHm) simp
          then show ?thesis using Cons Parsed c2 v c3 by simp
        qed
      qed
    qed
  qed
qed

lemma parse_fuel:
  "(\<forall>s. 2 * length s + 2 \<le> n \<longrightarrow> parse_value n s \<noteq> Failed (Unmodelled ''nesting too deep'')) \<and>
   (\<forall>acc s. 2 * length s + 3 \<le> n \<longrightarrow>
      parse_elements n acc s \<noteq> Failed (Unmodelled ''nesting too deep'')) \<and>
   (\<forall>acc s. 2 * length s + 3 \<le> n \<longrightarrow>
      parse_members n acc s \<noteq> Failed (Unmodelled ''nesting too deep''))"
proof (induction n)
  case 0
  show ?case by simp
next
  case (Suc n)
  have IHv: "\<And>s. 2 * length s + 2 \<le> n \<Longrightarrow>
      parse_value n s \<noteq> Failed (Unmodelled ''nesting too deep'')"
    using Suc by blast
  have IHe: "\<And>acc s. 2 * length s + 3 \<le> n \<Longrightarrow>
      parse_elements n acc s \<noteq> Failed (Unmodelled ''nesting too deep'')"
    using Suc by blast
  have IHm: "\<And>acc s. 2 * length s + 3 \<le> n \<Longrightarrow>
      parse_members n acc s \<noteq> Failed (Unmodelled ''nesting too deep'')"
    using Suc by blast
  show ?case
    using fuel_value_step [OF IHe IHm] fuel_elements_step [OF IHv IHe]
      fuel_members_step [OF IHv IHm]
    by blast
qed

lemma JSON_parse_fuel: "JSON_parse x \<noteq> Inl (Unmodelled ''nesting too deep'')"
proof -
  have "parse_value (2 * length (ToString x) + 2) (ToString x)
          \<noteq> Failed (Unmodelled ''nesting too deep'')"
    using parse_fuel [of "2 * length (ToString x) + 2"] by simp
  then show ?thesis
    by (cases "parse_value (2 * length (ToString x) + 2) (ToString x)")
       (simp_all add: JSON_parse_def Let_def)
qed

subsection \<open>The JSON model at work\<close>

lemma JSON_parse_examples:
  "JSON_parse (JStr '' { \"a\" : [ 1 , -20 ] , \"a\" : null , \"b\" : \"x\" } '')
     = Inr (JObj [(''a'', JNull), (''b'', JStr ''x'')])"
  "JSON_parse (JStr ''[1,]'') = Inl (SyntaxError ''Unexpected token in JSON'')"
  "JSON_parse (JStr ''01'') = Inl (SyntaxError ''Unexpected non-whitespace character after JSON'')"
  "JSON_parse (JStr []) = Inl (SyntaxError ''Unexpected end of JSON input'')"
  "JSON_parse JNull = Inr JNull"
  by code_simp+

lemma JSON_stringify_examples:
  "JSON_stringify (JArr [JUndefined, JNum (- 7), JObj [(''k'', JUndefined), (''l'', JBool True)]])
     = JStr ''[null,-7,{\"l\":true}]''"
  by code_simp

section \<open>The claims\<close>

subsection \<open>Supporting facts about routes and routers\<close>

text \<open>
  A route asked for a name that is found nowhere, neither among the declared methods nor on
  \<^verbatim>\<open>Object.prototype\<close>, answers "Method ... not found" at once: the argument is not validated
  and the factory is not called.
\<close>

lemma route_unknown_method:
  assumes "schema F m = None" and "m \<notin> set Object_prototype"
  shows "call (makeRoute S F implFn) ctx m arg w
           = ([], Inl (Error (''Method '' @ m @ '' not found'')), w)"
  using assms by (simp add: makeRoute_def get_prop_def reject_def Let_def)

text \<open>The message of that error contains the name.\<close>

lemma not_found_names_the_method: "sublist m (''Method '' @ m @ '' not found'')"
  by (rule sublist_appendI)

text \<open>
  Asked for an undeclared name that \<^verbatim>\<open>Object.prototype\<close> has, the route passes its guard and
  hands the validator an \<^verbatim>\<open>undefined\<close> schema: the answer is the library's error, whatever it is.
\<close>

lemma route_inherited_method:
  assumes "schema F m = None" and "m \<in> set Object_prototype"
  shows "call (makeRoute S F implFn) ctx m arg w = ([], Inl (no_schema S), w)"
  using assms
  by (simp add: makeRoute_def get_prop_def Let_def input_of_def parseOrThrow_def await_def
        settle_def)

text \<open>
  So the route answers "Method ... not found" for such a name only if that is, word for word,
  what the library throws when it is handed no schema.
\<close>

lemma route_inherited_method_not_found:
  assumes "schema F m = None" and "m \<in> set Object_prototype"
  shows "(call (makeRoute S F implFn) ctx m arg w
            = ([], Inl (Error (''Method '' @ m @ '' not found'')), w))
         = (no_schema S = Error (''Method '' @ m @ '' not found''))"
  using assms
  by (simp add: makeRoute_def get_prop_def Let_def input_of_def parseOrThrow_def await_def
        settle_def)

text \<open>A payload that is not an envelope is rejected by the router before any route is looked up.\<close>

lemma router_bad_envelope:
  assumes "cableSchema payload = Inl e"
  shows "makeRouter S routes ctx payload w = ([], Inl e, w)"
  using assms by (simp add: makeRouter_def parseOrThrow_def await_def settle_def)

text \<open>
  An envelope for a feature that is found nowhere is answered "Feature ... not found", and no
  route is called.
\<close>

lemma router_unknown_feature:
  assumes "cableSchema payload = Inr env" and "routes (ci_feature env) = None"
    and "ci_feature env \<notin> set Object_prototype"
  shows "makeRouter S routes ctx payload w
           = ([], Inl (Error (''Feature '' @ ci_feature env @ '' not found'')), w)"
  using assms
  by (simp add: makeRouter_def parseOrThrow_def await_def settle_def get_prop_def reject_def)

text \<open>
  An envelope for \<^verbatim>\<open>__proto__\<close>, when no route has that name, passes the guard and fails in
  the call.
\<close>

lemma router_inherited_proto:
  assumes "cableSchema payload = Inr env" and "ci_feature env = ''__proto__''"
    and "routes ''__proto__'' = None"
  shows "makeRouter S routes ctx payload w
           = ([], Inl (TypeError ''route.call is not a function''), w)"
  using assms
  by (simp add: makeRouter_def parseOrThrow_def await_def settle_def get_prop_def reject_def
        Object_prototype_def)

text \<open>The message of the Not Found error contains the name of the feature.\<close>

lemma not_found_names_the_feature: "sublist f (''Feature '' @ f @ '' not found'')"
  by (rule sublist_appendI)

subsection \<open>C1: the round trip through a remote, a cable, a router and a route\<close>

text \<open>
  C1, as amended. Let \<open>m\<close> be a declared method of the feature \<open>F\<close> with callable \<open>c\<close>, and let the
  proxy \<open>makeRemote S F cable\<close> use the cable that hands the envelope to a router holding the route
  \<open>makeRoute S F implFn\<close> under the name of \<open>F\<close> and parses the text the router answers with. If
  \<open>arg\<close> validates against the input schema as \<open>a\<close>, the route's own validation of \<open>a\<close> succeeds
  with \<open>a'\<close>, the implementation applied to \<open>a'\<close> returns a value that validates against the
  output schema as \<open>v\<close>, \<open>v\<close> is a value JSON can carry, and the output schema accepts \<open>v\<close>
  unchanged, then the proxy's call resolves to \<open>v\<close>.
\<close>

theorem remote_roundtrip:
  assumes "schema F m = Some c"
    and "routes (name F) = Some (makeRoute S F implFn)"
    and "input_schema c arg = Inr a"
    and "input_schema c a = Inr a'"
    and "outcome (implFn ctx w) = Inr impl"
    and "impl m = Some fn"
    and "outcome (fn a' (world (implFn ctx w))) = Inr res"
    and "output_schema c res = Inr v"
    and "json_value v"
    and "output_schema c v = Inr v"
  shows "outcome (makeRemote S F (directCable (makeRouter S routes) ctx) m arg w) = Inr v"
proof -
  have rt: "JSON_parse (JSON_stringify v) = Inr v"
    using JSON_roundtrip assms(9) by simp
  have env: "cableSchema (JObj [(''feature'', JStr (name F)), (''method'', JStr m), (''input'', a)])
      = Inr \<lparr>ci_feature = name F, ci_method = m, ci_input = a\<rparr>"
    by (simp add: cableSchema_def sury_defs)
  show ?thesis
    using assms(1-8,10) rt env
    by (auto simp: makeRemote_def directCable_def makeRouter_def makeRoute_def get_prop_def
        input_of_def output_of_def parseOrThrow_def
        task_defs Let_def split: prod.splits sum.splits option.splits if_splits)
qed

text \<open>
  The end-to-end scenario: \<^verbatim>\<open>remote.getOfficer({id: 1})\<close> resolves to the officer the
  implementation finds in the context.
\<close>

theorem remote_roundtrip_witness:
  "outcome (makeRemote suryA crewFeature
              (directCable (makeRouter suryA [''crew'' \<mapsto> makeRoute suryA crewFeature crewImpl]) enterprise)
              ''getOfficer'' (JObj [(''id'', JNum 1)]) ())
     = Inr (JObj [(''id'', JNum 1), (''name'', JStr ''Picard''), (''rank'', JStr ''Captain'')])"
proof -
  let ?c = "transform (S_schema [(''id'', S_number)])
              (S_schema [(''id'', S_number), (''name'', S_text), (''rank'', S_text)])"
  let ?picard = "JObj [(''id'', JNum 1), (''name'', JStr ''Picard''), (''rank'', JStr ''Captain'')]"
  have 1: "schema crewFeature ''getOfficer'' = Some ?c"
    by (simp add: crewFeature_def feature_def)
  have 2: "[''crew'' \<mapsto> makeRoute suryA crewFeature crewImpl] (name crewFeature)
             = Some (makeRoute suryA crewFeature crewImpl)"
    by (simp add: crewFeature_def feature_def)
  have 3: "input_schema ?c (JObj [(''id'', JNum 1)]) = Inr (JObj [(''id'', JNum 1)])"
    by (simp add: transform_def sury_defs)
  have 5: "outcome (crewImpl enterprise ()) = Inr [''getOfficer'' \<mapsto> getOfficer enterprise]"
    by (simp add: crewImpl_def task_defs)
  have 6: "[''getOfficer'' \<mapsto> getOfficer enterprise] ''getOfficer''
             = Some (getOfficer enterprise)"
    by simp
  have 7: "outcome (getOfficer enterprise (JObj [(''id'', JNum 1)])
                      (world (crewImpl enterprise ()))) = Inr ?picard"
    by (simp add: getOfficer_def enterprise_def task_defs sury_defs)
  have 8: "output_schema ?c ?picard = Inr ?picard"
    by (simp add: transform_def sury_defs)
  have 9: "json_value ?picard"
    by simp
  show ?thesis
    using remote_roundtrip [where S = suryA and F = crewFeature and m = "''getOfficer''" and c = ?c
        and routes = "[''crew'' \<mapsto> makeRoute suryA crewFeature crewImpl]" and implFn = crewImpl
        and arg = "JObj [(''id'', JNum 1)]" and a = "JObj [(''id'', JNum 1)]"
        and a' = "JObj [(''id'', JNum 1)]" and ctx = enterprise and w = "()"
        and impl = "[''getOfficer'' \<mapsto> getOfficer enterprise]"
        and fn = "getOfficer enterprise" and res = ?picard and v = ?picard]
      1 2 3 5 6 7 8 9
    by blast
qed

text \<open>
  The claim as the spec states it asks only that the argument and the returned value validate.
  The method \<^verbatim>\<open>log\<close> returns \<^verbatim>\<open>undefined\<close>, which validates against \<^verbatim>\<open>S.unknown\<close>; the
  route answers \<^verbatim>\<open>JSON.stringify(undefined)\<close>, that is \<^verbatim>\<open>undefined\<close>, the cable's
  \<^verbatim>\<open>JSON.parse\<close> throws, and the proxy's call is rejected.
\<close>

theorem remote_roundtrip_counterexample:
  "schema logFeature ''log'' = Some (transform S_unknown S_unknown) \<and>
   input_schema (transform S_unknown S_unknown) JNull = Inr JNull \<and>
   outcome (logImpl () ()) = Inr [''log'' \<mapsto> logMethod] \<and>
   outcome (logMethod JNull ()) = Inr JUndefined \<and>
   output_schema (transform S_unknown S_unknown) JUndefined = Inr JUndefined \<and>
   outcome (makeRemote suryA logFeature
              (directCable (makeRouter suryA [''log'' \<mapsto> makeRoute suryA logFeature logImpl]) ())
              ''log'' JNull ())
     = Inl (SyntaxError ''Unexpected token in JSON'')"
  by (simp add: logFeature_def logImpl_def logMethod_def feature_def transform_def makeRemote_def
        directCable_def makeRouter_def makeRoute_def cableSchema_def get_prop_def
        Object_prototype_def input_of_def output_of_def Let_def task_defs sury_defs
        JSON_stringify_def JSON_parse_def skip_ws_def is_ws_def is_digit_def)

text \<open>
  The two further conditions of the amended claim are needed as well, because the route
  validates what the proxy has validated already, and the proxy what the route has. With an input
  schema that coerces, \<^verbatim>\<open>remote.double("21")\<close> validates \<^verbatim>\<open>"21"\<close> as \<^verbatim>\<open>21\<close>, the
  implementation would answer \<^verbatim>\<open>42\<close> to it, and yet the route rejects \<^verbatim>\<open>21\<close>: it is not
  a string.
\<close>

lemma remote_roundtrip_needs_idempotence:
  "schema calcFeature ''double'' = Some (transform S_string_to_number S_number) \<and>
   input_schema (transform S_string_to_number S_number) (JStr ''21'') = Inr (JNum 21) \<and>
   outcome (double (JNum 21) ()) = Inr (JNum 42) \<and>
   output_schema (transform S_string_to_number S_number) (JNum 42) = Inr (JNum 42) \<and>
   outcome (makeRemote suryA calcFeature
              (directCable (makeRouter suryA [''calc'' \<mapsto> makeRoute suryA calcFeature calcImpl]) ())
              ''double'' (JStr ''21'') ())
     = Inl (SchemaError ''Expected string'')"
  by (simp add: calcFeature_def calcImpl_def double_def feature_def transform_def makeRemote_def
        directCable_def makeRouter_def makeRoute_def cableSchema_def get_prop_def
        Object_prototype_def input_of_def output_of_def Let_def task_defs sury_defs
        S_string_to_number_def parse_number_def parse_int_def integral_def is_digit_def
        digit_val_def)

subsection \<open>C2: the proxy fails fast on a bad argument\<close>



subsection \<open>C3: what a route answers with\<close>

text \<open>
  C3, as amended. Whenever a dispatch \<open>call (makeRoute S F implFn) ctx m arg\<close> resolves, with \<open>r\<close>,
  the method is declared, the argument validated, the factory and the implementation returned,
  the returned value validated against the output schema as some \<open>v\<close>, and \<open>r\<close> is
  \<^verbatim>\<open>JSON.stringify(v)\<close>. If \<open>v\<close> is a value JSON can carry (no \<^verbatim>\<open>undefined\<close> in it, no
  repeated key), then \<open>r\<close> is a string and \<^verbatim>\<open>JSON.parse(r)\<close> is \<open>v\<close>.
\<close>

theorem route_serializes:
  assumes "outcome (call (makeRoute S F implFn) ctx m arg w) = Inr r"
  shows "\<exists>c a impl fn res v.
           schema F m = Some c \<and> input_schema c arg = Inr a \<and>
           outcome (implFn ctx w) = Inr impl \<and> impl m = Some fn \<and>
           outcome (fn a (world (implFn ctx w))) = Inr res \<and>
           output_schema c res = Inr v \<and>
           r = JSON_stringify v \<and>
           (json_value v \<longrightarrow> (\<exists>text. r = JStr text) \<and> JSON_parse r = Inr v)"
proof -
  have rt: "\<And>v. json_value v \<longrightarrow>
      (\<exists>text. JSON_stringify v = JStr text) \<and> JSON_parse (JSON_stringify v) = Inr v"
    using JSON_roundtrip by (auto simp: JSON_stringify_def)
  show ?thesis
    using assms rt
    by (auto simp: makeRoute_def get_prop_def input_of_def output_of_def parseOrThrow_def
        task_defs Let_def split: prod.splits sum.splits option.splits if_splits)
qed

text \<open>
  The end-to-end scenario: \<^verbatim>\<open>route.call(ctx, "getOfficer", {id: 1})\<close> resolves to the JSON
  text of the officer, and parsing that text gives the officer back.
\<close>

theorem route_serializes_witness:
  "outcome (call (makeRoute suryA crewFeature crewImpl) enterprise ''getOfficer''
              (JObj [(''id'', JNum 1)]) ())
     = Inr (JStr ''{\"id\":1,\"name\":\"Picard\",\"rank\":\"Captain\"}'') \<and>
   JSON_parse (JStr ''{\"id\":1,\"name\":\"Picard\",\"rank\":\"Captain\"}'')
     = Inr (JObj [(''id'', JNum 1), (''name'', JStr ''Picard''), (''rank'', JStr ''Captain'')])"
proof -
  let ?text = "''{\"id\":1,\"name\":\"Picard\",\"rank\":\"Captain\"}''"
  let ?picard = "JObj [(''id'', JNum 1), (''name'', JStr ''Picard''), (''rank'', JStr ''Captain'')]"
  have h: "outcome (call (makeRoute suryA crewFeature crewImpl) enterprise ''getOfficer''
              (JObj [(''id'', JNum 1)]) ()) = Inr (JStr ?text)"
    by (simp add: crewFeature_def crewImpl_def getOfficer_def enterprise_def feature_def
          transform_def makeRoute_def get_prop_def input_of_def output_of_def Let_def task_defs
          sury_defs JSON_stringify_def QuoteJSONString_def QuoteJSONChar_def NumberToString_def
          digits.simps dec_digit_def)
  obtain c res v where c: "schema crewFeature ''getOfficer'' = Some c"
    and res: "outcome (getOfficer enterprise (JObj [(''id'', JNum 1)]) ()) = Inr res"
    and v: "output_schema c res = Inr v"
    and p: "json_value v \<longrightarrow> JSON_parse (JStr ?text) = Inr v"
    using route_serializes [OF h]
    by (auto simp: crewFeature_def crewImpl_def feature_def transform_def task_defs sury_defs)
  have "res = ?picard"
    using res by (simp add: getOfficer_def enterprise_def task_defs sury_defs)
  moreover have "c = transform (S_schema [(''id'', S_number)])
              (S_schema [(''id'', S_number), (''name'', S_text), (''rank'', S_text)])"
    using c by (simp add: crewFeature_def feature_def)
  ultimately have "v = ?picard"
    using v by (simp add: transform_def sury_defs)
  then show ?thesis using h p by simp
qed

text \<open>
  The claim as the spec states it holds for every dispatch that succeeds. The dispatch of
  \<^verbatim>\<open>log\<close> succeeds, and resolves to \<^verbatim>\<open>undefined\<close>: not a text, and \<^verbatim>\<open>JSON.parse\<close> throws on
  it.
\<close>

theorem route_serializes_counterexample:
  "outcome (call (makeRoute suryA logFeature logImpl) () ''log'' JNull ()) = Inr JUndefined \<and>
   JSON_parse JUndefined = Inl (SyntaxError ''Unexpected token in JSON'')"
  by (simp add: logFeature_def logImpl_def logMethod_def feature_def transform_def makeRoute_def
        get_prop_def input_of_def output_of_def Let_def task_defs sury_defs
        JSON_stringify_def JSON_parse_def skip_ws_def is_ws_def is_digit_def)

subsection \<open>C4: a route asked for an unknown method\<close>

text \<open>
  C4 fails on the code. \<^verbatim>\<open>toString\<close> is no method of the \<^verbatim>\<open>user\<close> feature, and yet
  \<^verbatim>\<open>route.call(ctx, "toString", {})\<close> is not answered "Method toString not found": the
  lookup finds \<^verbatim>\<open>Object.prototype.toString\<close>, the guard lets it through, and the call is
  rejected by the validator, handed an \<^verbatim>\<open>undefined\<close> schema: with every library \<open>S\<close> the answer
  is the library's own error, and with either stand-in it is not the error of the guard.
\<close>

theorem route_inherited_method_toString:
  "schema userFeature ''toString'' = None \<and>
   call (makeRoute S userFeature userImpl) () ''toString'' (JObj []) ()
     = ([], Inl (no_schema S), ()) \<and>
   call (makeRoute suryA userFeature userImpl) () ''toString'' (JObj []) ()
     \<noteq> ([], Inl (Error ''Method toString not found''), ()) \<and>
   call (makeRoute suryB userFeature userImpl) () ''toString'' (JObj []) ()
     \<noteq> ([], Inl (Error ''Method toString not found''), ())"
  by (simp add: userFeature_def feature_def makeRoute_def get_prop_def Object_prototype_def
        input_of_def output_of_def Let_def task_defs sury_defs suryA_def suryB_def)

subsection \<open>C5: a router given a bad envelope or an unknown feature\<close>

text \<open>
  C5 fails on the code. The envelope \<^verbatim>\<open>{feature: "__proto__", method: "someMethod", input: {}}\<close>
  validates and names no registered route, and yet the router does not answer "Feature
  __proto__ not found": \<^verbatim>\<open>routes["__proto__"]\<close> is \<^verbatim>\<open>Object.prototype\<close>, the guard lets it
  through, and calling its missing \<^verbatim>\<open>call\<close> throws a \<^verbatim>\<open>TypeError\<close>.
\<close>

theorem router_inherited_feature_proto:
  "cableSchema (JObj [(''feature'', JStr ''__proto__''), (''method'', JStr ''someMethod''),
                      (''input'', JObj [])])
     = Inr \<lparr>ci_feature = ''__proto__'', ci_method = ''someMethod'', ci_input = JObj []\<rparr> \<and>
   [''user'' \<mapsto> makeRoute suryA userFeature userImpl] ''__proto__'' = None \<and>
   makeRouter suryA [''user'' \<mapsto> makeRoute suryA userFeature userImpl] ()
      (JObj [(''feature'', JStr ''__proto__''), (''method'', JStr ''someMethod''),
             (''input'', JObj [])]) ()
     = ([], Inl (TypeError ''route.call is not a function''), ())"
  by (simp add: makeRouter_def cableSchema_def get_prop_def Object_prototype_def
        Let_def task_defs sury_defs)

subsection \<open>C6: the factory runs at every call\<close>



subsection \<open>C7: the router delegates\<close>

text \<open>
  C7. If the payload validates as an envelope whose feature is a registered route \<open>r\<close>, the
  router's promise settles exactly as \<open>call r ctx method input\<close> does, resolved or rejected, in
  the same world, and the router's only own call is that call of the route.
\<close>

theorem router_delegates:
  assumes "cableSchema payload = Inr env" and "routes (ci_feature env) = Some r"
  shows "outcome (makeRouter S routes ctx payload w)
           = outcome (call r ctx (ci_method env) (ci_input env) w) \<and>
         world (makeRouter S routes ctx payload w)
           = world (call r ctx (ci_method env) (ci_input env) w) \<and>
         trace (makeRouter S routes ctx payload w)
           = RouteCall (ci_feature env) ctx (ci_method env) (ci_input env)
               # trace (call r ctx (ci_method env) (ci_input env) w)"
  using assms
  by (auto simp: makeRouter_def get_prop_Some parseOrThrow_def
        await_def settle_def emit_def trace_def outcome_def world_def Let_def
        split: prod.splits sum.splits)

text \<open>An envelope for \<^verbatim>\<open>user.getProfile\<close> settles as the \<^verbatim>\<open>user\<close> route does.\<close>

theorem router_delegates_witness:
  "outcome (makeRouter suryA [''user'' \<mapsto> makeRoute suryA userFeature userImpl] ()
      (JObj [(''feature'', JStr ''user''), (''method'', JStr ''getProfile''),
             (''input'', JObj [(''id'', JNum 1)])]) ())
   = outcome (call (makeRoute suryA userFeature userImpl) () ''getProfile''
                (JObj [(''id'', JNum 1)]) ())"
proof -
  have h: "cableSchema (JObj [(''feature'', JStr ''user''), (''method'', JStr ''getProfile''),
             (''input'', JObj [(''id'', JNum 1)])])
       = Inr \<lparr>ci_feature = ''user'', ci_method = ''getProfile'',
              ci_input = JObj [(''id'', JNum 1)]\<rparr>"
    by (simp add: cableSchema_def sury_defs)
  show ?thesis
    using router_delegates [OF h, where S = suryA and ctx = "()" and w = "()"
        and routes = "[''user'' \<mapsto> makeRoute suryA userFeature userImpl]"
        and r = "makeRoute suryA userFeature userImpl"]
    by simp
qed

subsection \<open>C8: cables without an endpoint or without a token\<close>

text \<open>
  C8. \<^verbatim>\<open>makeCable\<close> and \<^verbatim>\<open>httpCable\<close>, given an endpoint that is \<^verbatim>\<open>undefined\<close> or empty,
  throw "Backend endpoint is not set" instead of returning a cable. A cable they did return,
  called while \<^verbatim>\<open>auth.token\<close> is \<^verbatim>\<open>null\<close>, is rejected with "User not authenticated, cannot
  call cable without a token" and makes no call: \<^verbatim>\<open>fetch\<close> is not reached.
\<close>

theorem cable_failures:
  "((endpoint = None \<or> endpoint = Some []) \<longrightarrow>
      makeCable fetch endpoint auth = Inl (Error ''Backend endpoint is not set'') \<and>
      httpCable fetch endpoint auth = Inl (Error ''Backend endpoint is not set'')) \<and>
   (\<forall>cable. (makeCable fetch endpoint auth = Inr cable \<or>
             httpCable fetch endpoint auth = Inr cable) \<and> auth w = None \<longrightarrow>
      cable f m i w =
        ([], Inl (Error ''User not authenticated, cannot call cable without a token''), w))"
  by (auto simp: makeCable_def httpCable_def reject_def split: option.splits if_splits)

text \<open>
  No endpoint: no cable. An endpoint and no token: a cable that rejects without fetching.
\<close>

theorem cable_failures_witness:
  "makeCable mockFetch None (\<lambda>token. token) = Inl (Error ''Backend endpoint is not set'') \<and>
   \<not> isl (httpCable mockFetch (Some ''https://api.example.com/rpc'') (\<lambda>token. token)) \<and>
   projr (httpCable mockFetch (Some ''https://api.example.com/rpc'') (\<lambda>token. token))
     ''user'' ''getProfile'' (JObj [(''id'', JNum 42)]) None
     = ([], Inl (Error ''User not authenticated, cannot call cable without a token''), None)"
proof -
  let ?made = "httpCable mockFetch (Some ''https://api.example.com/rpc'') (\<lambda>token. token)"
  have a: "(None :: string option) = None \<or> (None :: string option) = Some []" by simp
  have c: "\<not> isl ?made"
    by (simp add: httpCable_def)
  then have d: "(makeCable mockFetch (Some ''https://api.example.com/rpc'') (\<lambda>token. token)
              = Inr (projr ?made) \<or> ?made = Inr (projr ?made)) \<and>
           (\<lambda>token. token) (None :: string option) = None"
    by (cases ?made) simp_all
  show ?thesis
    using cable_failures [of None mockFetch "\<lambda>token. token" None] a
      cable_failures [of "Some ''https://api.example.com/rpc''" mockFetch "\<lambda>token. token" None
         "''user''" "''getProfile''" "JObj [(''id'', JNum 42)]"] c d
    by blast
qed

subsection \<open>C9: the name of a feature\<close>

text \<open>
  C9, as amended. \<^verbatim>\<open>feature(name, schema)\<close> returns a feature with exactly the name and the
  schema it was given; its name is non-empty exactly when the given name is.
\<close>

theorem feature_keeps_name:
  "name (feature n s) = n \<and> schema (feature n s) = s \<and>
   (name (feature n s) \<noteq> [] \<longleftrightarrow> n \<noteq> [])"
  by (simp add: feature_def)

text \<open>The feature of the tests is named \<^verbatim>\<open>user\<close>.\<close>

theorem feature_keeps_name_witness:
  "name (feature ''user'' (Map.empty :: Schemas)) = ''user''"
  using feature_keeps_name [of "''user''" "Map.empty :: Schemas"] by simp

text \<open>
  The claim as the spec states it makes every feature's name non-empty. The constructor checks
  nothing: \<^verbatim>\<open>feature("", {})\<close> is a feature, and its name is empty.
\<close>

theorem feature_empty_name_counterexample:
  "name (feature [] (Map.empty :: Schemas)) = []"
  by (simp add: feature_def)

subsection \<open>C10: undeclared names on the proxy\<close>

text \<open>
  C10, as amended. For every name \<open>m\<close> that is not a declared method of \<open>F\<close>, the proxy still
  answers with a function, and calling it is rejected, makes no call (the cable is never
  invoked) and leaves the world untouched. The proxy has no "method not declared" check of its
  own: when \<open>m\<close> is found nowhere the rejection is the \<^verbatim>\<open>TypeError\<close> of destructuring
  \<^verbatim>\<open>undefined\<close>; when \<open>m\<close> is a member of \<^verbatim>\<open>Object.prototype\<close> the destructuring succeeds and
  the rejection is the error the library throws when it is handed an \<^verbatim>\<open>undefined\<close> schema,
  whatever that error is.
\<close>

theorem remote_undeclared:
  assumes "schema F m = None"
  shows "makeRemote S F cable m arg w =
           ([], Inl (if m \<in> set Object_prototype then no_schema S
                     else TypeError
                       ''Cannot destructure property input of callable as it is undefined''),
            w)"
  using assms
  by (auto simp: makeRemote_def get_prop_def input_of_def output_of_def parseOrThrow_def
        await_def settle_def emit_def reject_def Let_def split: prod.splits sum.splits)

text \<open>\<^verbatim>\<open>remote.nonExistent(null)\<close> fails in the destructuring.\<close>

theorem remote_undeclared_witness:
  "makeRemote suryA userFeature mockCable ''nonExistent'' JNull ()
     = ([], Inl (TypeError ''Cannot destructure property input of callable as it is undefined''),
        ())"
proof -
  have h: "schema userFeature ''nonExistent'' = None"
    by (simp add: userFeature_def feature_def)
  show ?thesis
    using remote_undeclared [OF h, where S = suryA and cable = mockCable and arg = JNull
        and w = "()"]
    by (simp add: Object_prototype_def)
qed

text \<open>
  The claim as stated has every such call fail in the destructuring of a missing callable.
  \<^verbatim>\<open>remote.toString(null)\<close> does not: the callable is \<^verbatim>\<open>Object.prototype.toString\<close>, the
  destructuring succeeds, and the rejection is the library's, with either stand-in.
\<close>

theorem remote_undeclared_counterexample:
  "schema userFeature ''toString'' = None \<and>
   makeRemote suryA userFeature mockCable ''toString'' JNull ()
     = ([], Inl (no_schema suryA), ()) \<and>
   makeRemote suryA userFeature mockCable ''toString'' JNull ()
     \<noteq> ([], Inl (TypeError ''Cannot destructure property input of callable as it is undefined''),
         ()) \<and>
   makeRemote suryB userFeature mockCable ''toString'' JNull ()
     = ([], Inl (no_schema suryB), ()) \<and>
   makeRemote suryB userFeature mockCable ''toString'' JNull ()
     \<noteq> ([], Inl (TypeError ''Cannot destructure property input of callable as it is undefined''),
         ())"
  by (simp add: userFeature_def feature_def makeRemote_def get_prop_def Object_prototype_def
        input_of_def output_of_def Let_def task_defs sury_defs suryA_def suryB_def)

end
